theory Spec2Isabelle
  imports Complex_Main "HOL-Library.AList" "HOL-Library.Product_Lexorder"
begin

chapter \<open>ConwayPad: token normalization, deploy requests, inference relay, chat history\<close>

text \<open>
  The functions of the repository that its specification makes statements about, as
  functions of higher-order logic, followed by the statements.  The first part holds the
  definitions: \<open>normalizeToken\<close> of the client library; the strings and patterns
  that \<open>parseDeployMessage\<close> is written with, and the parser; \<open>deployTokenViaSDK\<close>
  and the two routes that call it; \<open>callConwayAI\<close>; \<open>generateFallbackResponse\<close>;
  and the storage operations on the chat history.  What lies outside the repository (the
  deployment SDK, the wallet and payment libraries, the inference endpoint, the database)
  is a parameter of the function that uses it.  The second part holds the properties.
\<close>

section \<open>Values of the external token registry\<close>

text \<open>
  \<open>normalizeToken\<close> takes \<open>t: any\<close>, a record parsed from the registry's JSON.  The
  values of the language are a datatype: the two nullish values, booleans, numbers,
  strings, arrays, and objects as association lists from property names to values
  (looked up with \<open>map_of\<close>).  A property that is not there reads as \<open>undefined\<close>.
\<close>

datatype jsval =
    JUndefined
  | JNull
  | JBool bool
  | JNum real
  | JStr string
  | JArr "jsval list"
  | JObj "(string \<times> jsval) list"

type_synonym jsobject = "(string \<times> jsval) list"

datatype js_error = TypeError

text \<open>Truthiness, which decides \<open>a || b\<close>: \<open>a\<close> when it is truthy, otherwise \<open>b\<close>.\<close>

fun truthy :: "jsval \<Rightarrow> bool" where
  "truthy JUndefined = False"
| "truthy JNull = False"
| "truthy (JBool b) = b"
| "truthy (JNum n) = (n \<noteq> 0)"
| "truthy (JStr s) = (s \<noteq> [])"
| "truthy (JArr vs) = True"
| "truthy (JObj al) = True"

definition js_or :: "jsval \<Rightarrow> jsval \<Rightarrow> jsval" where
  "js_or a b = (if truthy a then a else b)"

text \<open>\<open>t.k\<close> on an object \<open>t\<close>.\<close>

definition get_prop :: "jsobject \<Rightarrow> string \<Rightarrow> jsval" where
  "get_prop t k = (case map_of t k of Some v \<Rightarrow> v | None \<Rightarrow> JUndefined)"

text \<open>
  \<open>v.k\<close> on any value: a TypeError on \<open>undefined\<close> and \<open>null\<close>, the property on an
  object, and \<open>undefined\<close> on a boolean, number, string or array (the names read by
  \<open>normalizeToken\<close> are \<open>market\<close>, \<open>platform\<close>, \<open>marketCap\<close>, \<open>price\<close>,
  \<open>priceChange24h\<close> and \<open>volume24h\<close>, none of them a built-in property of those).
  \<open>v?.k\<close> is \<open>undefined\<close> on the nullish values and \<open>v.k\<close> otherwise.
\<close>

fun member :: "jsval \<Rightarrow> string \<Rightarrow> js_error + jsval" where
  "member JUndefined k = Inl TypeError"
| "member JNull k = Inl TypeError"
| "member (JObj al) k = Inr (get_prop al k)"
| "member v k = Inr JUndefined"

fun opt_member :: "jsval \<Rightarrow> string \<Rightarrow> js_error + jsval" where
  "opt_member JUndefined k = Inr JUndefined"
| "opt_member JNull k = Inr JUndefined"
| "opt_member v k = member v k"

text \<open>
  The object literal \<open>{ ...t, k1: v1, ..., kn: vn }\<close>: the properties of \<open>t\<close>, then
  each \<open>ki\<close> in turn set to \<open>vi\<close>, replacing the value of a property that is there
  and adding the property at the end otherwise.
\<close>

definition spread_with :: "jsobject \<Rightarrow> (string \<times> jsval) list \<Rightarrow> jsobject" where
  "spread_with t kvs = fold (\<lambda>(k, v) al. AList.update k v al) kvs t"

section \<open>Token normalization\<close>

definition canonical_values ::
  "jsobject \<Rightarrow> jsval \<Rightarrow> jsval \<Rightarrow> jsval \<Rightarrow> jsval \<Rightarrow> jsval \<Rightarrow> (string \<times> jsval) list" where
  "canonical_values t m_marketCap m_price m_priceChange24h m_volume24h sc_platform =
     [(''address'', js_or (get_prop t ''contract_address'')
                      (js_or (get_prop t ''address'') (JStr ''''))),
      (''name'', js_or (get_prop t ''name'') (JStr ''Unknown'')),
      (''symbol'', js_or (get_prop t ''symbol'') (JStr ''?'')),
      (''deployDate'', js_or (get_prop t ''deployed_at'')
                         (js_or (get_prop t ''created_at'')
                           (js_or (get_prop t ''deployDate'') (JStr '''')))),
      (''deployerWallet'', js_or (get_prop t ''msg_sender'')
                             (js_or (get_prop t ''deployer'')
                               (js_or (get_prop t ''deployerWallet'') (JStr '''')))),
      (''imgUrl'', js_or (get_prop t ''img_url'') (js_or (get_prop t ''image'') (JStr ''''))),
      (''marketCap'', js_or m_marketCap (js_or (get_prop t ''market_cap'') (JNum 0))),
      (''price'', js_or m_price (js_or (get_prop t ''price'') (JNum 0))),
      (''priceChange24h'', js_or m_priceChange24h (JNum 0)),
      (''volume24h'', js_or m_volume24h (JNum 0)),
      (''chainId'', js_or (get_prop t ''chain_id'') (JNum 8453)),
      (''platform'', js_or sc_platform (JStr ''''))]"

text \<open>
  \<open>normalizeToken\<close>: \<open>market\<close> is \<open>t.related?.market || {}\<close>; the four reads of
  \<open>market\<close> and the two optional chains are the places where the body could throw,
  so each is a branch.  \<open>canonical_values\<close> is the list of the twelve properties the
  literal sets after the spread, in the order of the source.
\<close>

definition normalizeToken :: "jsobject \<Rightarrow> js_error + jsobject" where
  "normalizeToken t =
     (case opt_member (get_prop t ''related'') ''market'' of Inl e \<Rightarrow> Inl e | Inr rm \<Rightarrow>
      let market = js_or rm (JObj []) in
      case member market ''marketCap'' of Inl e \<Rightarrow> Inl e | Inr m_marketCap \<Rightarrow>
      case member market ''price'' of Inl e \<Rightarrow> Inl e | Inr m_price \<Rightarrow>
      case member market ''priceChange24h'' of Inl e \<Rightarrow> Inl e | Inr m_priceChange24h \<Rightarrow>
      case member market ''volume24h'' of Inl e \<Rightarrow> Inl e | Inr m_volume24h \<Rightarrow>
      case opt_member (get_prop t ''social_context'') ''platform'' of Inl e \<Rightarrow> Inl e
      | Inr sc_platform \<Rightarrow>
          Inr (spread_with t
                 (canonical_values t m_marketCap m_price m_priceChange24h m_volume24h
                    sc_platform)))"

text \<open>
  The properties the literal sets, and the ten of them that the display uses.  A value
  is nullish when it is \<open>undefined\<close> or \<open>null\<close>; a list of source properties is
  missing when the record has none of them.
\<close>

definition canonical_fields :: "string list" where
  "canonical_fields =
     [''address'', ''name'', ''symbol'', ''deployDate'', ''deployerWallet'', ''imgUrl'',
      ''marketCap'', ''price'', ''priceChange24h'', ''volume24h'', ''chainId'', ''platform'']"






definition example_token :: jsobject where
  "example_token =
     [(''name'', JStr ''Foo''),
      (''pool_address'', JStr ''0xabc''),
      (''price'', JNum 3),
      (''related'', JObj [(''market'', JObj [(''price'', JNum 2)])])]"

section \<open>Strings\<close>

text \<open>
  A text is a list of code units.  The model covers the code units \<open>0\<close> to \<open>255\<close>
  (Latin-1), which hold every pattern character of the source; \<open>cu\<close> is the number of
  a code unit.  White space is what \<open>\s\<close> and \<open>trim\<close> take in that range: tab, line
  feed, vertical tab, form feed, carriage return, space and the no-break space.  A word
  character is what \<open>\w\<close> takes, and \<open>.\<close> takes everything but the two line
  terminators.
\<close>

definition cu :: "char \<Rightarrow> nat" where
  "cu c = of_char c"

definition in_range :: "char \<Rightarrow> char \<Rightarrow> char \<Rightarrow> bool" where
  "in_range a b c = (cu a \<le> cu c \<and> cu c \<le> cu b)"

definition is_space :: "char \<Rightarrow> bool" where
  "is_space c = (cu c \<in> {9, 10, 11, 12, 13, 32, 160})"

definition is_line_terminator :: "char \<Rightarrow> bool" where
  "is_line_terminator c = (cu c \<in> {10, 13})"

definition is_word :: "char \<Rightarrow> bool" where
  "is_word c = (in_range CHR ''a'' CHR ''z'' c \<or> in_range CHR ''A'' CHR ''Z'' c \<or>
                in_range CHR ''0'' CHR ''9'' c \<or> c = CHR ''_'')"

text \<open>
  The letters of the range that have the other case in the range: \<open>A\<close> to \<open>Z\<close> and
  the code units 192 to 222 without 215 are upper case, their lower case is 32 above.
\<close>

definition is_upper :: "char \<Rightarrow> bool" where
  "is_upper c = (in_range CHR ''A'' CHR ''Z'' c \<or> (192 \<le> cu c \<and> cu c \<le> 222 \<and> cu c \<noteq> 215))"

definition is_lower :: "char \<Rightarrow> bool" where
  "is_lower c = (in_range CHR ''a'' CHR ''z'' c \<or> (224 \<le> cu c \<and> cu c \<le> 254 \<and> cu c \<noteq> 247))"

definition lower_code :: "char \<Rightarrow> nat" where
  "lower_code c = (if is_upper c then cu c + 32 else cu c)"

definition upper_code :: "char \<Rightarrow> nat" where
  "upper_code c = (if is_lower c then cu c - 32 else cu c)"

definition lower_char :: "char \<Rightarrow> char" where
  "lower_char c = char_of (lower_code c)"

definition upper_char :: "char \<Rightarrow> char" where
  "upper_char c = char_of (upper_code c)"

definition toLowerCase :: "string \<Rightarrow> string" where
  "toLowerCase s = map lower_char s"

text \<open>
  \<open>toUpperCase\<close>: the sharp s (223) becomes \<open>SS\<close>.  The upper case of the micro sign
  (181) and of y with diaeresis (255) lies outside the range; they are left as they are
  here.  The only text the source puts in upper case is a run of the letters \<open>A\<close> to
  \<open>Z\<close> and \<open>a\<close> to \<open>z\<close>.
\<close>

definition toUpperCase :: "string \<Rightarrow> string" where
  "toUpperCase s = concat (map (\<lambda>c. if cu c = 223 then ''SS'' else [upper_char c]) s)"

definition startsWith :: "string \<Rightarrow> string \<Rightarrow> bool" where
  "startsWith s p = (take (length p) s = p)"

fun includes_str :: "string \<Rightarrow> string \<Rightarrow> bool" where
  "includes_str [] w = (w = [])"
| "includes_str (c # cs) w = (if startsWith (c # cs) w then True else includes_str cs w)"

definition trim :: "string \<Rightarrow> string" where
  "trim s = rev (dropWhile is_space (rev (dropWhile is_space s)))"

text \<open>\<open>s.slice(a, b)\<close> for \<open>0 \<le> a \<le> b\<close>, and \<open>s.slice(a)\<close>.\<close>

definition slice :: "string \<Rightarrow> nat \<Rightarrow> nat \<Rightarrow> string" where
  "slice s a b = take (b - a) (drop a s)"

text \<open>\<open>s.replace(/\s+/g, " ")\<close>: every maximal run of white space becomes one space.\<close>

function replace_spaces :: "string \<Rightarrow> string" where
  "replace_spaces [] = []"
| "replace_spaces (c # cs) =
     (if is_space c then CHR '' '' # replace_spaces (dropWhile is_space cs)
      else c # replace_spaces cs)"
  by pat_completeness auto
termination
  by (relation "measure length") (auto simp: less_Suc_eq_le length_dropWhile_le)

text \<open>An optional string is truthy when it is there and not empty.\<close>

definition truthy_str :: "string option \<Rightarrow> bool" where
  "truthy_str x = (case x of None \<Rightarrow> False | Some s \<Rightarrow> s \<noteq> [])"

section \<open>Regular expressions\<close>

text \<open>
  The patterns of the source are built from the constructs below.  A class item is a
  character, a range or \<open>\s\<close>; an atom takes one code unit.  Every quantifier of the
  source except one \<open>(?:...)?\<close> is on an atom: \<open>Rep greedy lo hi a\<close> is \<open>a{lo,hi}\<close>
  (\<open>hi = None\<close> for no upper bound), lazy when \<open>greedy\<close> is false.  \<open>Cap\<close> is the
  capturing group; no pattern of the source has more than one.
\<close>

datatype citem = CC char | CR char char | CS

datatype atom = Chr char | Cls "citem list" | NCls "citem list" | Dot | Sp | NSp

datatype re =
    Empty
  | A atom
  | Rep bool nat "nat option" atom
  | WordB
  | Eos
  | Seq re re
  | Alt re re
  | Opt re
  | Cap re
  | Ahead re
  | NotAhead re

text \<open>
  With the flag \<open>i\<close> two code units are the same when their canonical forms are: the
  upper case when that is one code unit and does not turn a code unit above 127 into one
  below.  Within the range this is \<open>upper_code\<close> (the micro sign and y with
  diaeresis are the only code units with their canonical form, which is represented by
  their own number).  A range takes a code unit under \<open>i\<close> when it holds a code unit
  of the same canonical form, that is the code unit itself or its other case.
\<close>

definition canonicalize :: "bool \<Rightarrow> char \<Rightarrow> nat" where
  "canonicalize ic c = (if ic then upper_code c else cu c)"

definition between :: "char \<Rightarrow> char \<Rightarrow> nat \<Rightarrow> bool" where
  "between a b n = (cu a \<le> n \<and> n \<le> cu b)"

fun item_ok :: "bool \<Rightarrow> citem \<Rightarrow> char \<Rightarrow> bool" where
  "item_ok ic (CC p) c = (canonicalize ic c = canonicalize ic p)"
| "item_ok ic (CR a b) c =
     (between a b (cu c) \<or> (ic \<and> (between a b (upper_code c) \<or> between a b (lower_code c))))"
| "item_ok ic CS c = is_space c"

fun atom_ok :: "bool \<Rightarrow> atom \<Rightarrow> char \<Rightarrow> bool" where
  "atom_ok ic (Chr p) c = (canonicalize ic c = canonicalize ic p)"
| "atom_ok ic (Cls items) c = list_ex (\<lambda>it. item_ok ic it c) items"
| "atom_ok ic (NCls items) c = (\<not> list_ex (\<lambda>it. item_ok ic it c) items)"
| "atom_ok ic Dot c = (\<not> is_line_terminator c)"
| "atom_ok ic Sp c = is_space c"
| "atom_ok ic NSp c = (\<not> is_space c)"

text \<open>
  The matcher is the backtracking one of the language: it walks the pattern with a
  continuation for the rest of the pattern, tries the alternatives in their order of
  priority and keeps the first that lets the continuation succeed.  Its state is the code
  unit before the position (for \<open>\b\<close>), the text from the position on, the position,
  and the capture; the result is the end position and the capture.
\<close>

type_synonym capture = "(nat \<times> nat) option"

type_synonym outcome = "(nat \<times> capture) option"

type_synonym continuation = "char option \<Rightarrow> string \<Rightarrow> nat \<Rightarrow> capture \<Rightarrow> outcome"

definition below :: "nat option \<Rightarrow> nat \<Rightarrow> bool" where
  "below hi n = (case hi of None \<Rightarrow> True | Some h \<Rightarrow> n < h)"

fun rep_greedy ::
  "(char \<Rightarrow> bool) \<Rightarrow> nat \<Rightarrow> nat option \<Rightarrow> nat \<Rightarrow> char option \<Rightarrow> string \<Rightarrow> nat \<Rightarrow> capture \<Rightarrow>
   continuation \<Rightarrow> outcome" where
  "rep_greedy ok lo hi n p [] i c k = (if lo \<le> n then k p [] i c else None)"
| "rep_greedy ok lo hi n p (x # xs) i c k =
     (if below hi n \<and> ok x then
        (case rep_greedy ok lo hi (Suc n) (Some x) xs (Suc i) c k of
           Some r \<Rightarrow> Some r
         | None \<Rightarrow> if lo \<le> n then k p (x # xs) i c else None)
      else if lo \<le> n then k p (x # xs) i c else None)"

fun rep_lazy ::
  "(char \<Rightarrow> bool) \<Rightarrow> nat \<Rightarrow> nat option \<Rightarrow> nat \<Rightarrow> char option \<Rightarrow> string \<Rightarrow> nat \<Rightarrow> capture \<Rightarrow>
   continuation \<Rightarrow> outcome" where
  "rep_lazy ok lo hi n p [] i c k = (if lo \<le> n then k p [] i c else None)"
| "rep_lazy ok lo hi n p (x # xs) i c k =
     (case (if lo \<le> n then k p (x # xs) i c else None) of
        Some r \<Rightarrow> Some r
      | None \<Rightarrow>
          if below hi n \<and> ok x then rep_lazy ok lo hi (Suc n) (Some x) xs (Suc i) c k
          else None)"

definition at_boundary :: "char option \<Rightarrow> string \<Rightarrow> bool" where
  "at_boundary p s =
     ((case p of None \<Rightarrow> False | Some a \<Rightarrow> is_word a) \<noteq>
      (case s of [] \<Rightarrow> False | b # bs \<Rightarrow> is_word b))"

definition accept :: continuation where
  "accept p s i c = Some (i, c)"

fun matcher ::
  "bool \<Rightarrow> re \<Rightarrow> char option \<Rightarrow> string \<Rightarrow> nat \<Rightarrow> capture \<Rightarrow> continuation \<Rightarrow> outcome" where
  "matcher ic Empty p s i c k = k p s i c"
| "matcher ic (A a) p s i c k =
     (case s of [] \<Rightarrow> None
      | x # xs \<Rightarrow> if atom_ok ic a x then k (Some x) xs (Suc i) c else None)"
| "matcher ic (Rep greedy lo hi a) p s i c k =
     (if greedy then rep_greedy (atom_ok ic a) lo hi 0 p s i c k
      else rep_lazy (atom_ok ic a) lo hi 0 p s i c k)"
| "matcher ic WordB p s i c k = (if at_boundary p s then k p s i c else None)"
| "matcher ic Eos p s i c k = (if s = [] then k p s i c else None)"
| "matcher ic (Seq r1 r2) p s i c k =
     matcher ic r1 p s i c (\<lambda>p' s' i' c'. matcher ic r2 p' s' i' c' k)"
| "matcher ic (Alt r1 r2) p s i c k =
     (case matcher ic r1 p s i c k of Some r \<Rightarrow> Some r | None \<Rightarrow> matcher ic r2 p s i c k)"
| "matcher ic (Opt r1) p s i c k =
     (case matcher ic r1 p s i c k of Some r \<Rightarrow> Some r | None \<Rightarrow> k p s i c)"
| "matcher ic (Cap r1) p s i c k =
     matcher ic r1 p s i c (\<lambda>p' s' i' c'. k p' s' i' (Some (i, i')))"
| "matcher ic (Ahead r1) p s i c k =
     (case matcher ic r1 p s i c accept of Some (j, c') \<Rightarrow> k p s i c' | None \<Rightarrow> None)"
| "matcher ic (NotAhead r1) p s i c k =
     (case matcher ic r1 p s i c accept of Some r \<Rightarrow> None | None \<Rightarrow> k p s i c)"

text \<open>
  \<open>text.match(r)\<close> without the flag \<open>g\<close>: the match at the leftmost start position
  that has one, every position from \<open>0\<close> to the length of the text being tried.  The
  result holds the matched text and the text of the capture.
\<close>

fun search :: "bool \<Rightarrow> re \<Rightarrow> char option \<Rightarrow> string \<Rightarrow> nat \<Rightarrow> (nat \<times> nat \<times> capture) option" where
  "search ic r p [] i =
     (case matcher ic r p [] i None accept of Some (j, c) \<Rightarrow> Some (i, j, c) | None \<Rightarrow> None)"
| "search ic r p (x # xs) i =
     (case matcher ic r p (x # xs) i None accept of
        Some (j, c) \<Rightarrow> Some (i, j, c)
      | None \<Rightarrow> search ic r (Some x) xs (Suc i))"

record match_result =
  whole :: string
  group1 :: "string option"

definition js_match :: "bool \<Rightarrow> re \<Rightarrow> string \<Rightarrow> match_result option" where
  "js_match ic r text =
     (case search ic r None text 0 of
        None \<Rightarrow> None
      | Some (i, j, c) \<Rightarrow>
          Some \<lparr> whole = slice text i j,
                 group1 = (case c of None \<Rightarrow> None | Some (a, b) \<Rightarrow> Some (slice text a b)) \<rparr>)"

text \<open>Writing patterns: a literal word, a sequence, a choice, and the quantifier \<open>+\<close>.\<close>

definition lit :: "string \<Rightarrow> re" where
  "lit w = foldr (\<lambda>ch r. Seq (A (Chr ch)) r) w Empty"

definition seqs :: "re list \<Rightarrow> re" where
  "seqs rs = foldr Seq rs Empty"

fun alts :: "re list \<Rightarrow> re" where
  "alts [] = Empty"
| "alts [r] = r"
| "alts (r # rs) = Alt r (alts rs)"

definition plus :: "atom \<Rightarrow> re" where
  "plus a = Rep True 1 None a"

definition lazy_plus :: "atom \<Rightarrow> re" where
  "lazy_plus a = Rep False 1 None a"

section \<open>Deploy-intent parser\<close>

record DeployParams =
  name :: "string option"
  symbol :: "string option"
  wallet :: "string option"
  websiteUrl :: "string option"
  twitterUrl :: "string option"
  description :: "string option"
  imageUrl :: "string option"

definition newline :: char where
  "newline = CHR 0x0A"

definition letters :: "citem list" where
  "letters = [CR CHR ''A'' CHR ''Z'', CR CHR ''a'' CHR ''z'']"

definition colon_or_space :: atom where
  "colon_or_space = Cls [CC CHR '':'', CS]"

text \<open>
  The patterns of \<open>parseDeployMessage\<close>, in the order of the source.  The first name
  pattern is
  \<^verbatim>\<open>/\bname[:\s]+([^\n,;]+?)(?=\s+(?:symbol|ticker|x\s|twitter|website|wallet|image|description)|$)/i\<close>
  and the second
  \<^verbatim>\<open>/\btoken\s+(?:name[:\s]+)?([A-Za-z][A-Za-z0-9\s]{1,30}?)(?=\s+(?:symbol|ticker|$))/i\<close>.
\<close>

definition name_re1 :: re where
  "name_re1 =
     seqs [WordB, lit ''name'', plus colon_or_space,
           Cap (lazy_plus (NCls [CC newline, CC CHR '','', CC CHR '';''])),
           Ahead (Alt (Seq (plus Sp)
                         (alts [lit ''symbol'', lit ''ticker'', Seq (lit ''x'') (A Sp),
                                lit ''twitter'', lit ''website'', lit ''wallet'', lit ''image'',
                                lit ''description'']))
                      Eos)]"

definition name_re2 :: re where
  "name_re2 =
     seqs [WordB, lit ''token'', plus Sp,
           Opt (Seq (lit ''name'') (plus colon_or_space)),
           Cap (Seq (A (Cls letters))
                  (Rep False 1 (Some 30) (Cls (letters @ [CR CHR ''0'' CHR ''9'', CS])))),
           Ahead (Seq (plus Sp) (alts [lit ''symbol'', lit ''ticker'', Eos]))]"

text \<open>
  \<^verbatim>\<open>/\b(?:symbol|ticker)[:\s]+([A-Za-z]{2,10})/i\<close> and, without the flag \<open>i\<close>,
  \<^verbatim>\<open>/\b([A-Z]{2,10})\b(?=\s|$)(?!.*\b(?:symbol|ticker)\b)/\<close>.
\<close>

definition symbol_re1 :: re where
  "symbol_re1 =
     seqs [WordB, Alt (lit ''symbol'') (lit ''ticker''), plus colon_or_space,
           Cap (Rep True 2 (Some 10) (Cls letters))]"

definition symbol_re2 :: re where
  "symbol_re2 =
     seqs [WordB, Cap (Rep True 2 (Some 10) (Cls [CR CHR ''A'' CHR ''Z''])), WordB,
           Ahead (Alt (A Sp) Eos),
           NotAhead (seqs [Rep True 0 None Dot, WordB, Alt (lit ''symbol'') (lit ''ticker''),
                           WordB])]"

text \<open>\<^verbatim>\<open>/\b(0x[a-fA-F0-9]{40})\b/\<close>\<close>

definition hex_digits :: "citem list" where
  "hex_digits = [CR CHR ''a'' CHR ''f'', CR CHR ''A'' CHR ''F'', CR CHR ''0'' CHR ''9'']"

definition wallet_re :: re where
  "wallet_re = seqs [WordB, Cap (Seq (lit ''0x'') (Rep True 40 (Some 40) (Cls hex_digits))), WordB]"

text \<open>\<^verbatim>\<open>/\bwebsite[:\s]+(\S+)/i\<close> and \<^verbatim>\<open>/\bweb[:\s]+(\S+)/i\<close>\<close>

definition website_re1 :: re where
  "website_re1 = seqs [WordB, lit ''website'', plus colon_or_space, Cap (plus NSp)]"

definition website_re2 :: re where
  "website_re2 = seqs [WordB, lit ''web'', plus colon_or_space, Cap (plus NSp)]"

text \<open>
  \<^verbatim>\<open>/\b(?:twitter|x)[:\s]+(https?:\/\/[^\s]+)/i\<close> and
  \<^verbatim>\<open>/\b(?:twitter|x)[:\s]+(@?[^\s\n,;]+)/i\<close>
\<close>

definition twitter_re1 :: re where
  "twitter_re1 =
     seqs [WordB, Alt (lit ''twitter'') (lit ''x''), plus colon_or_space,
           Cap (seqs [lit ''http'', Rep True 0 (Some 1) (Chr CHR ''s''), lit ''://'',
                      plus (NCls [CS])])]"

definition twitter_re2 :: re where
  "twitter_re2 =
     seqs [WordB, Alt (lit ''twitter'') (lit ''x''), plus colon_or_space,
           Cap (Seq (Rep True 0 (Some 1) (Chr CHR ''@''))
                  (plus (NCls [CS, CC newline, CC CHR '','', CC CHR '';''])))]"

text \<open>
  \<^verbatim>\<open>/\b(?:description|desc)[:\s]+([^\n]+)/i\<close>, \<^verbatim>\<open>/\bimage[:\s]+(\S+)/i\<close> and
  \<^verbatim>\<open>/\bipfs:\/\/\S+/i\<close>
\<close>

definition description_re :: re where
  "description_re =
     seqs [WordB, Alt (lit ''description'') (lit ''desc''), plus colon_or_space,
           Cap (plus (NCls [CC newline]))]"

definition image_re1 :: re where
  "image_re1 = seqs [WordB, lit ''image'', plus colon_or_space, Cap (plus NSp)]"

definition image_re2 :: re where
  "image_re2 = seqs [WordB, lit ''ipfs://'', plus NSp]"

text \<open>\<open>a || b\<close> on two results of \<open>match\<close>: the first when it is a match.\<close>

definition or_match :: "match_result option \<Rightarrow> match_result option \<Rightarrow> match_result option" where
  "or_match a b = (case a of Some r \<Rightarrow> Some r | None \<Rightarrow> b)"

text \<open>
  The capture of a match as a string.  Every pattern that is asked for its capture
  has its group on each path, so the capture of a match is never \<open>undefined\<close>; the empty
  string stands for that case.
\<close>

definition group_text :: "match_result \<Rightarrow> string" where
  "group_text r = (case group1 r of Some g \<Rightarrow> g | None \<Rightarrow> [])"

text \<open>One definition for each field, each the block of the source that sets it.\<close>

definition parse_name :: "string \<Rightarrow> string option" where
  "parse_name text =
     (case or_match (js_match True name_re1 text) (js_match True name_re2 text) of
        None \<Rightarrow> None
      | Some nameMatch \<Rightarrow> Some (replace_spaces (trim (group_text nameMatch))))"

definition parse_symbol :: "string \<Rightarrow> string option" where
  "parse_symbol text =
     (case or_match (js_match True symbol_re1 text) (js_match False symbol_re2 text) of
        None \<Rightarrow> None
      | Some symbolMatch \<Rightarrow> Some (toUpperCase (trim (group_text symbolMatch))))"

definition parse_wallet :: "string \<Rightarrow> string option" where
  "parse_wallet text =
     (case js_match False wallet_re text of
        None \<Rightarrow> None
      | Some walletMatch \<Rightarrow> Some (group_text walletMatch))"

definition parse_website :: "string \<Rightarrow> string option" where
  "parse_website text =
     (case or_match (js_match True website_re1 text) (js_match True website_re2 text) of
        None \<Rightarrow> None
      | Some websiteMatch \<Rightarrow>
          (let url = trim (group_text websiteMatch)
           in Some (if \<not> startsWith url ''http'' then ''https://'' @ url else url)))"

definition parse_twitter :: "string \<Rightarrow> string option" where
  "parse_twitter text =
     (case or_match (js_match True twitter_re1 text) (js_match True twitter_re2 text) of
        None \<Rightarrow> None
      | Some twitterMatch \<Rightarrow>
          (let url = trim (group_text twitterMatch)
           in Some (if \<not> startsWith url ''http'' \<and> startsWith url ''@''
                    then ''https://x.com/'' @ drop 1 url
                    else if \<not> startsWith url ''http'' then ''https://x.com/'' @ url
                    else url)))"

definition parse_description :: "string \<Rightarrow> string option" where
  "parse_description text =
     (case js_match True description_re text of
        None \<Rightarrow> None
      | Some descMatch \<Rightarrow> Some (trim (group_text descMatch)))"

definition parse_image :: "string \<Rightarrow> string option" where
  "parse_image text =
     (case or_match (js_match True image_re1 text) (js_match True image_re2 text) of
        None \<Rightarrow> None
      | Some imageMatch \<Rightarrow>
          Some (if truthy_str (group1 imageMatch) then group_text imageMatch
                else whole imageMatch))"

text \<open>
  \<open>parseDeployMessage\<close>: \<open>null\<close> when the text in lower case has none of the three
  keywords; otherwise the fields, each set when its pattern matches, and \<open>null\<close> again
  unless the name or the symbol is truthy.
\<close>

definition parseDeployMessage :: "string \<Rightarrow> DeployParams option" where
  "parseDeployMessage text =
     (let lower = toLowerCase text in
      if \<not> includes_str lower ''deploy'' \<and> \<not> includes_str lower ''launch'' \<and>
         \<not> includes_str lower ''create token''
      then None
      else
        let params = \<lparr> name = parse_name text, symbol = parse_symbol text,
                       wallet = parse_wallet text, websiteUrl = parse_website text,
                       twitterUrl = parse_twitter text, description = parse_description text,
                       imageUrl = parse_image text \<rparr>
        in if truthy_str (name params) \<or> truthy_str (symbol params) then Some params else None)"

text \<open>The digits of an address: \<open>0\<close> to \<open>9\<close>, \<open>a\<close> to \<open>f\<close> and \<open>A\<close> to \<open>F\<close>.\<close>

definition is_hex :: "char \<Rightarrow> bool" where
  "is_hex c = (in_range CHR ''0'' CHR ''9'' c \<or> in_range CHR ''a'' CHR ''f'' c \<or>
               in_range CHR ''A'' CHR ''F'' c)"

text \<open>The letters of a symbol: \<open>A\<close> to \<open>Z\<close> and \<open>a\<close> to \<open>z\<close>.\<close>

definition is_letter :: "char \<Rightarrow> bool" where
  "is_letter c = (in_range CHR ''A'' CHR ''Z'' c \<or> in_range CHR ''a'' CHR ''z'' c)"

text \<open>
  The stop words of the first name pattern.  Its lookahead ends a name where white space
  is followed by one of these words, in any case, or by \<open>x\<close> and white space:
  \<open>stop_at s\<close> says that the text \<open>s\<close> begins in one of these ways.
\<close>

definition stop_words :: "string list" where
  "stop_words =
     [''symbol'', ''ticker'', ''twitter'', ''website'', ''wallet'', ''image'', ''description'']"

definition stop_at :: "string \<Rightarrow> bool" where
  "stop_at s =
     (list_ex (startsWith (toLowerCase s)) stop_words \<or>
      (startsWith (toLowerCase s) ''x'' \<and> 1 < length s \<and> is_space (s ! 1)))"

section \<open>Server configuration\<close>

text \<open>
  \<open>CONWAY_WALLET_PRIVATE_KEY\<close> is read from the environment and may be unset.  The
  wallet library is outside the repository: \<open>privateKeyToAccount\<close> is a parameter that
  gives the address of the account of a key, or nothing where the library throws.
  \<open>getViemClients\<close> returns \<open>null\<close> when the key is unset or empty and when the
  library throws; otherwise the clients, of which the model keeps the account address.
\<close>

record server_env =
  CONWAY_WALLET_PRIVATE_KEY :: "string option"
  privateKeyToAccount :: "string \<Rightarrow> string option"

datatype clients = Clients string

definition getViemClients :: "server_env \<Rightarrow> clients option" where
  "getViemClients env =
     (if \<not> truthy_str (CONWAY_WALLET_PRIVATE_KEY env) then None
      else case privateKeyToAccount env (the (CONWAY_WALLET_PRIVATE_KEY env)) of
             None \<Rightarrow> None
           | Some account \<Rightarrow> Some (Clients account))"

text \<open>
  \<open>AGENT_WALLET_ADDRESS\<close> is set once at startup: the zero address, replaced by the
  address of the key's account when the key is set and the library does not throw.
\<close>

definition zero_address :: string where
  "zero_address = ''0x0000000000000000000000000000000000000000''"

definition AGENT_WALLET_ADDRESS :: "server_env \<Rightarrow> string" where
  "AGENT_WALLET_ADDRESS env =
     (if truthy_str (CONWAY_WALLET_PRIVATE_KEY env) then
        (case privateKeyToAccount env (the (CONWAY_WALLET_PRIVATE_KEY env)) of
           None \<Rightarrow> zero_address
         | Some account \<Rightarrow> account)
      else zero_address)"

section \<open>Deployment dispatch\<close>

text \<open>The argument of the SDK's \<open>deploy\<close>, as \<open>deployTokenViaSDK\<close> builds it.\<close>

datatype reward_token = Both | Paired | Clanker

record reward_recipient =
  admin :: string
  recipient :: string
  bps :: nat
  token :: reward_token

record social_url =
  platform :: string
  url :: string

record deploy_context =
  interface :: string
  ctx_platform :: string
  messageId :: string
  ctx_id :: string

record deploy_request =
  req_name :: string
  req_symbol :: string
  tokenAdmin :: string
  image :: string
  meta_description :: string
  socialMediaUrls :: "social_url list"
  auditUrls :: "string list"
  req_context :: deploy_context
  recipients :: "reward_recipient list"

text \<open>
  What the SDK does is outside the repository.  Its \<open>deploy\<close> either throws (with or
  without a message), or returns an error, or returns a transaction hash together with
  \<open>waitForTransaction\<close>, whose promise is later fulfilled or rejected.
\<close>

datatype wait_outcome = Confirmed | Rejected

datatype sdk_outcome =
    SdkThrows "string option"
  | SdkError string
  | SdkOk string wait_outcome

datatype sdk_call = CallDeploy deploy_request | CallWaitForTransaction

record deploy_result =
  success :: bool
  txHash :: "string option"
  error :: "string option"

definition default_image :: string where
  "default_image = ''ipfs://bafybeigdyrzt5sfp7udm7hu76uh7y26nf3efuylqabf3oclgtqy55fbzdi''"

text \<open>The dash of the default description is U+2014, written here in UTF-8.\<close>

definition default_description :: "string \<Rightarrow> string" where
  "default_description nm = nm @ '' '' @ [CHR 0xE2, CHR 0x80, CHR 0x94] @ '' deployed via ConwayPad''"

definition str_or :: "string option \<Rightarrow> string \<Rightarrow> string" where
  "str_or a b = (if truthy_str a then the a else b)"

definition build_request :: "server_env \<Rightarrow> DeployParams \<Rightarrow> deploy_request" where
  "build_request env params =
     (let tokenAdmin = the (wallet params)
      in \<lparr> req_name = the (name params),
           req_symbol = the (symbol params),
           tokenAdmin = tokenAdmin,
           image = str_or (imageUrl params) default_image,
           meta_description =
             str_or (description params) (default_description (the (name params))),
           socialMediaUrls =
             (if truthy_str (websiteUrl params)
              then [\<lparr> platform = ''website'', url = the (websiteUrl params) \<rparr>] else []) @
             (if truthy_str (twitterUrl params)
              then [\<lparr> platform = ''x'', url = the (twitterUrl params) \<rparr>] else []),
           auditUrls = [],
           req_context = \<lparr> interface = ''ConwayPad'', ctx_platform = ''ConwayPad'',
                        messageId = ''1'', ctx_id = ''1'' \<rparr>,
           recipients =
             [\<lparr> admin = tokenAdmin, recipient = tokenAdmin, bps = 9000, token = Both \<rparr>,
              \<lparr> admin = AGENT_WALLET_ADDRESS env, recipient = AGENT_WALLET_ADDRESS env,
                 bps = 1000, token = Both \<rparr>] \<rparr>)"

definition failure :: "string \<Rightarrow> deploy_result" where
  "failure msg = \<lparr> success = False, txHash = None, error = Some msg \<rparr>"

text \<open>
  \<open>deployTokenViaSDK\<close> returns its result and, for the properties below, the calls it
  has made to the SDK.  \<open>build_request\<close> is used only past the check of the three
  required fields, where each \<open>the\<close> is on a string that is there.  The promise of
  \<open>waitForTransaction\<close> is not awaited and its rejection is swallowed, so its outcome
  has no branch.
\<close>

definition deployTokenViaSDK ::
  "server_env \<Rightarrow> (deploy_request \<Rightarrow> sdk_outcome) \<Rightarrow> DeployParams \<Rightarrow> deploy_result \<times> sdk_call list" where
  "deployTokenViaSDK env sdk params =
     (case getViemClients env of
        None \<Rightarrow>
          (failure ''Server wallet not configured. Add CONWAY_WALLET_PRIVATE_KEY.'', [])
      | Some cl \<Rightarrow>
          if \<not> truthy_str (name params) \<or> \<not> truthy_str (symbol params) \<or>
             \<not> truthy_str (wallet params)
          then (failure ''Name, symbol, and wallet address are required.'', [])
          else
            let req = build_request env params in
            case sdk req of
              SdkThrows msg \<Rightarrow> (failure (str_or msg ''Deployment failed''), [CallDeploy req])
            | SdkError e \<Rightarrow> (failure e, [CallDeploy req])
            | SdkOk tx w \<Rightarrow>
                (\<lparr> success = True, txHash = Some tx, error = None \<rparr>,
                 [CallDeploy req, CallWaitForTransaction]))"

definition deploy_calls :: "sdk_call list \<Rightarrow> deploy_request list" where
  "deploy_calls calls = concat (map (\<lambda>c. case c of CallDeploy r \<Rightarrow> [r] | _ \<Rightarrow> []) calls)"

definition example_env :: server_env where
  "example_env =
     \<lparr> CONWAY_WALLET_PRIVATE_KEY = Some ''0xkey'',
       privateKeyToAccount = (\<lambda>k. Some ''0x9999999999999999999999999999999999999999'') \<rparr>"

definition example_params :: DeployParams where
  "example_params =
     \<lparr> name = Some ''Foo'', symbol = Some ''FOO'',
       wallet = Some ''0x1111111111111111111111111111111111111111'',
       websiteUrl = None, twitterUrl = None, description = None, imageUrl = None \<rparr>"

definition example_sdk :: "deploy_request \<Rightarrow> sdk_outcome" where
  "example_sdk req = SdkOk ''0xabc'' Rejected"

section \<open>The routes that dispatch a deployment\<close>








section \<open>Pay-per-request inference relay\<close>

text \<open>
  \<open>callConwayAI\<close> talks to the inference endpoint through \<open>httpsPostStream\<close> and to
  its caller through the callbacks \<open>onChunk\<close>, \<open>onDone\<close> and \<open>onError\<close>.  The
  model returns the trace of these events in the order in which they happen.
\<close>

record http_request =
  headers :: "(string \<times> string) list"
  body :: string

datatype stream_end = StreamEnd | StreamError "string option"

record http_response =
  status :: nat
  chunks :: "string list"
  ending :: stream_end

datatype net_result = NetworkError "string option" | Response http_response

datatype chat_event = Sent http_request | Chunk string | Done | Failed string

text \<open>
  The endpoint is a parameter: \<open>net n req\<close> is what the \<open>n\<close>-th request of the turn
  gets, a network error (with the message of the exception, if it has one) or a response
  with its status, the chunks of its body, and whether reading the body ends or throws.

  The body of a 402 response is read by \<open>JSON.parse\<close> and then asked for
  \<open>accepts\<close>: it does not parse, or has no \<open>accepts\<close> of truthy length, or gives a
  protocol version and a first payment option (kept abstract as \<open>'o\<close>).  From the
  option, \<open>normalizePaymentRequirements\<close> and the signing helper of the payment
  library make the credential; the first may throw outside the inner \<open>try\<close>, the
  second inside it.
\<close>

datatype 'o payment_required = Unparsable | NoAccepts | Accepts 'o

datatype sign_outcome = NormalizeThrows "string option" | SignThrows | Signed string

fun digit :: "nat \<Rightarrow> char" where
  "digit n = (''0123456789'' ! (n mod 10))"

function show_nat :: "nat \<Rightarrow> string" where
  "show_nat n = (if n < 10 then [digit n] else show_nat (n div 10) @ [digit n])"
  by pat_completeness auto
termination
  by (relation "measure id") auto

fun split_on :: "char \<Rightarrow> string \<Rightarrow> string list" where
  "split_on d [] = [[]]"
| "split_on d (c # cs) =
     (if c = d then [] # split_on d cs
      else case split_on d cs of [] \<Rightarrow> [[c]] | l # ls \<Rightarrow> (c # l) # ls)"

text \<open>
  \<open>readSseStream\<close>: the chunks are added to a buffer, the buffer is split at line
  feeds and its last piece kept for the next round; a line \<open>data: ...\<close> other than
  \<open>[DONE]\<close> gives a chunk when the content of its first delta is not empty.
  \<open>delta_content\<close> stands for \<open>JSON.parse\<close> and the read of
  \<open>choices?.[0]?.delta?.content || ""\<close>, with the empty string where the parse throws.
\<close>

definition sse_line :: "(string \<Rightarrow> string) \<Rightarrow> string \<Rightarrow> chat_event list" where
  "sse_line delta_content line =
     (if \<not> startsWith line ''data: '' then []
      else let data = trim (drop 6 line)
           in if data = ''[DONE]'' then []
              else let delta = delta_content data
                   in if delta \<noteq> [] then [Chunk delta] else [])"

fun readSseStream :: "(string \<Rightarrow> string) \<Rightarrow> string \<Rightarrow> string list \<Rightarrow> chat_event list" where
  "readSseStream delta_content buf [] = []"
| "readSseStream delta_content buf (raw # rest) =
     (let lines = split_on newline (buf @ raw)
      in concat (map (sse_line delta_content) (butlast lines)) @
         readSseStream delta_content (last lines) rest)"

text \<open>
  Streaming a response with status 200: the chunks, then \<open>onDone\<close>; when reading
  throws, the outer \<open>catch\<close> calls \<open>onError\<close> with the message or \<open>Network error\<close>.
\<close>

definition stream_back :: "(string \<Rightarrow> string) \<Rightarrow> http_response \<Rightarrow> chat_event list" where
  "stream_back delta_content resp =
     readSseStream delta_content [] (chunks resp) @
     (case ending resp of
        StreamEnd \<Rightarrow> [Done]
      | StreamError m \<Rightarrow> [Failed (str_or m ''Network error'')])"

text \<open>
  \<open>readBody\<close> followed by a report: when reading throws, the outer \<open>catch\<close> reports
  instead.
\<close>

definition after_body :: "http_response \<Rightarrow> chat_event list \<Rightarrow> chat_event list" where
  "after_body resp evs =
     (case ending resp of
        StreamEnd \<Rightarrow> evs
      | StreamError m \<Rightarrow> [Failed (str_or m ''Network error'')])"

definition first_request :: "string \<Rightarrow> http_request" where
  "first_request bodyStr =
     \<lparr> headers = [(''Content-Type'', ''application/json'')], body = bodyStr \<rparr>"

definition paid_request :: "string \<Rightarrow> string \<Rightarrow> http_request" where
  "paid_request bodyStr paymentHeader =
     \<lparr> headers = [(''Content-Type'', ''application/json''),
                   (''X-PAYMENT'', paymentHeader),
                   (''Access-Control-Expose-Headers'', ''X-PAYMENT-RESPONSE'')],
       body = bodyStr \<rparr>"

text \<open>
  \<open>callConwayAI\<close>.  \<open>bodyStr\<close> is the serialised request, made once before the
  first request.  \<open>err_detail\<close> stands for the read of \<open>detail\<close>, \<open>error\<close> or
  \<open>message\<close> in the body of a rejected resend.
\<close>

definition callConwayAI ::
  "server_env \<Rightarrow> (nat \<Rightarrow> http_request \<Rightarrow> net_result) \<Rightarrow> (string \<Rightarrow> 'o payment_required) \<Rightarrow>
   (clients \<Rightarrow> 'o \<Rightarrow> sign_outcome) \<Rightarrow> (string \<Rightarrow> string) \<Rightarrow> (string \<Rightarrow> string option) \<Rightarrow> string \<Rightarrow>
   chat_event list" where
  "callConwayAI env net parse402 pay delta_content err_detail bodyStr =
     (case getViemClients env of
        None \<Rightarrow> [Failed ''agent_wallet_missing'']
      | Some cl \<Rightarrow>
          Sent (first_request bodyStr) #
          (case net 0 (first_request bodyStr) of
             NetworkError m \<Rightarrow> [Failed (str_or m ''Network error'')]
           | Response step1 \<Rightarrow>
               if status step1 = 200 then stream_back delta_content step1
               else if status step1 \<noteq> 402 then
                 after_body step1 [Failed (''Conway error HTTP '' @ show_nat (status step1))]
               else
                 after_body step1
                   (case parse402 (concat (chunks step1)) of
                      Unparsable \<Rightarrow> [Failed ''x402_parse_error'']
                    | NoAccepts \<Rightarrow> [Failed ''x402_no_accepts'']
                    | Accepts offer \<Rightarrow>
                        (case pay cl offer of
                           NormalizeThrows m \<Rightarrow> [Failed (str_or m ''Network error'')]
                         | SignThrows \<Rightarrow> [Failed ''x402_sign_error'']
                         | Signed paymentHeader \<Rightarrow>
                             Sent (paid_request bodyStr paymentHeader) #
                             (case net 1 (paid_request bodyStr paymentHeader) of
                                NetworkError m \<Rightarrow> [Failed (str_or m ''Network error'')]
                              | Response step2 \<Rightarrow>
                                  if status step2 = 200 then stream_back delta_content step2
                                  else
                                    after_body step2
                                      [Failed (''x402_payment_rejected: '' @
                                         str_or (err_detail (concat (chunks step2)))
                                           (''HTTP '' @ show_nat (status step2)))])))))"

definition requests :: "chat_event list \<Rightarrow> http_request list" where
  "requests tr = concat (map (\<lambda>e. case e of Sent r \<Rightarrow> [r] | _ \<Rightarrow> []) tr)"

definition is_failed :: "chat_event \<Rightarrow> bool" where
  "is_failed e = (case e of Failed m \<Rightarrow> True | _ \<Rightarrow> False)"

definition example_net :: "nat \<Rightarrow> http_request \<Rightarrow> net_result" where
  "example_net n req =
     (if n = 0 then Response \<lparr> status = 402, chunks = [''{}''], ending = StreamEnd \<rparr>
      else Response \<lparr> status = 500, chunks = [''no''], ending = StreamEnd \<rparr>)"

definition net_status :: "net_result \<Rightarrow> nat option" where
  "net_status r = (case r of NetworkError m \<Rightarrow> None | Response resp \<Rightarrow> Some (status resp))"

section \<open>Fallback knowledge base\<close>

text \<open>
  \<open>generateFallbackResponse\<close> returns one of a fixed set of texts.  The texts
  themselves are constants of the source that no property here looks into; an answer is
  recorded as the topic whose text is returned, as the address reply with the address
  it quotes, or as the generic menu with the note that is appended to it.
\<close>

datatype topic =
    Greeting
  | PlatformDeploy
  | PlatformFees
  | PlatformConwayPad
  | PlatformClanker
  | PlatformUniswap
  | PlatformDexScreener
  | PlatformStats
  | Bitcoin
  | Ethereum
  | Solana
  | BnbChain
  | Polygon
  | BaseBlockchain
  | Layer2
  | DeFi
  | NFT
  | WalletTopic
  | PrivateKey
  | GasFees
  | Stablecoin
  | Staking
  | Memecoins
  | SmartContract
  | ERC20
  | Web3
  | DAO
  | YieldFarming
  | Airdrop
  | MarketCap
  | Volume
  | DYOR
  | RugPull
  | ColdWallet
  | FudFomo
  | WETH
  | Tokenomics
  | PriceQuestion
  | Help

datatype credit_note = NoNote | WalletNotConfigured | SigningFailed | PaymentError

datatype answer = Canned topic | AddressDetected string | Menu credit_note

text \<open>\<open>has(w1, ..., wn)\<close>: some word is included in the question in lower case.\<close>

definition has :: "string \<Rightarrow> string list \<Rightarrow> bool" where
  "has q ws = list_ex (\<lambda>w. includes_str q w) ws"

text \<open>\<^verbatim>\<open>/0x[a-f0-9]{40}/i\<close>, and the text of its match in the question.\<close>

definition address_re :: re where
  "address_re =
     Seq (lit ''0x'') (Rep True 40 (Some 40) (Cls [CR CHR ''a'' CHR ''f'', CR CHR ''0'' CHR ''9'']))"

definition address_match :: "string \<Rightarrow> string option" where
  "address_match q = (case js_match True address_re q of None \<Rightarrow> None | Some r \<Rightarrow> Some (whole r))"

text \<open>The note of the menu, chosen by the error tag.\<close>

definition creditNote :: "string option \<Rightarrow> credit_note" where
  "creditNote errCode =
     (if errCode = Some ''agent_wallet_missing'' then WalletNotConfigured
      else if errCode = Some ''x402_sign_error'' then SigningFailed
      else if (case errCode of None \<Rightarrow> False | Some e \<Rightarrow> startsWith e ''x402_'') then PaymentError
      else NoNote)"

text \<open>The chain of tests, in the order of the source.\<close>

definition generateFallbackResponse :: "string \<Rightarrow> string option \<Rightarrow> answer" where
  "generateFallbackResponse message errCode =
     (let q = toLowerCase message in
      if has q [''hello'', ''hi '', ''hey'', ''how are you'', ''greetings'']
        then Canned Greeting
      else if has q [''deploy'', ''launch'', ''create token'', ''mint token'']
        then Canned PlatformDeploy
      else if has q [''fee'', ''split'', ''earn'', ''reward'']
        then Canned PlatformFees
      else if has q [''conwaypad'', ''how does'', ''how it work'', ''what is conway'',
                     ''platform'']
        then Canned PlatformConwayPad
      else if has q [''clanker'']
        then Canned PlatformClanker
      else if has q [''uniswap'', ''liquidity'', ''pool'', ''amm'', ''swap'']
        then Canned PlatformUniswap
      else if has q [''dexscreener'', ''dex screener'', ''chart'']
        then Canned PlatformDexScreener
      else if has q [''stat'', ''total token'', ''how many'', ''dashboard'']
        then Canned PlatformStats
      else if has q [''bitcoin'', ''btc'', ''satoshi nakamoto'', ''halving'']
        then Canned Bitcoin
      else if has q [''ethereum'', ''ether '', '' eth '', ''vitalik'', ''the merge'', ''evm'']
        then Canned Ethereum
      else if has q [''solana'', '' sol '']
        then Canned Solana
      else if has q [''bnb'', ''binance smart chain'', ''bsc'', ''pancakeswap'']
        then Canned BnbChain
      else if has q [''polygon'', ''matic'']
        then Canned Polygon
      else if has q [''base '', ''base blockchain'', ''chain id 8453'', ''layer 2 base'',
                     ''coinbase l2'']
        then Canned BaseBlockchain
      else if has q [''layer 2'', ''l2'', ''optimism'', ''arbitrum'', ''rollup'', ''zksync'']
        then Canned Layer2
      else if has q [''defi'', ''decentralized finance'']
        then Canned DeFi
      else if has q [''nft'', ''non-fungible'', ''non fungible'', ''opensea'',
                     ''digital art'']
        then Canned NFT
      else if has q [''wallet'', ''metamask'', ''coinbase wallet'', ''rainbow'']
        then Canned WalletTopic
      else if has q [''private key'', ''seed phrase'', ''mnemonic'', ''recovery phrase'']
        then Canned PrivateKey
      else if has q [''gas'', ''gas fee'', ''gwei'', ''transaction fee'']
        then Canned GasFees
      else if has q [''stablecoin'', ''usdc'', ''usdt'', ''dai'', ''stable coin'']
        then Canned Stablecoin
      else if has q [''staking'', ''stake'', ''validator'', ''proof of stake'']
        then Canned Staking
      else if has q [''memecoin'', ''meme coin'', ''doge'', ''shib'', ''pepe'', ''bonk'',
                     ''wif'']
        then Canned Memecoins
      else if has q [''smart contract'', ''solidity'']
        then Canned SmartContract
      else if has q [''erc-20'', ''erc20'', ''fungible token'']
        then Canned ERC20
      else if has q [''web3'', ''web 3'', ''blockchain technology'']
        then Canned Web3
      else if has q [''dao'', ''decentralized autonomous'', ''governance'', ''voting'']
        then Canned DAO
      else if has q [''yield farm'', ''yield farming'', ''provide liquidity'', ''lp token'',
                     ''liquidity provider'']
        then Canned YieldFarming
      else if has q [''airdrop'', ''air drop'', ''free token'']
        then Canned Airdrop
      else if has q [''market cap'', ''marketcap'', ''mcap'', ''fully diluted'']
        then Canned MarketCap
      else if has q [''volume'', ''trading volume'', ''volume 24h'']
        then Canned Volume
      else if has q [''dyor'', ''do your own research'', ''research'']
        then Canned DYOR
      else if has q [''rug pull'', ''rugpull'', ''scam'', ''honeypot'']
        then Canned RugPull
      else if has q [''cold wallet'', ''hardware wallet'', ''ledger'', ''trezor'',
                     ''hot wallet'']
        then Canned ColdWallet
      else if has q [''fud'', ''fomo'', ''fear of missing'', ''bull run'', ''bear market'']
        then Canned FudFomo
      else if has q [''weth'', ''wrapped eth'', ''wrapped ether'']
        then Canned WETH
      else if has q [''tokenomics'', ''tokenomic'', ''supply'', ''vesting'', ''allocation'']
        then Canned Tokenomics
      else if address_match q \<noteq> None
        then AddressDetected (str_or (address_match q) [])
      else if has q [''price'', ''how much is'', ''how much does'']
        then Canned PriceQuestion
      else if has q [''help'', ''command'', ''what can you'']
        then Canned Help
      else Menu (creditNote errCode))"

text \<open>
  The same selection as the specification describes it: an ordered list of rules, each
  a test on the question with its answer, of which the first that applies gives the
  answer, and the menu when none applies.
\<close>

datatype fallback_rule = Keywords "string list" topic | AddressLookup

definition rules :: "fallback_rule list" where
  "rules =
     [Keywords [''hello'', ''hi '', ''hey'', ''how are you'', ''greetings''] Greeting,
      Keywords [''deploy'', ''launch'', ''create token'', ''mint token''] PlatformDeploy,
      Keywords [''fee'', ''split'', ''earn'', ''reward''] PlatformFees,
      Keywords [''conwaypad'', ''how does'', ''how it work'', ''what is conway'',
                ''platform''] PlatformConwayPad,
      Keywords [''clanker''] PlatformClanker,
      Keywords [''uniswap'', ''liquidity'', ''pool'', ''amm'', ''swap''] PlatformUniswap,
      Keywords [''dexscreener'', ''dex screener'', ''chart''] PlatformDexScreener,
      Keywords [''stat'', ''total token'', ''how many'', ''dashboard''] PlatformStats,
      Keywords [''bitcoin'', ''btc'', ''satoshi nakamoto'', ''halving''] Bitcoin,
      Keywords [''ethereum'', ''ether '', '' eth '', ''vitalik'', ''the merge'', ''evm''] Ethereum,
      Keywords [''solana'', '' sol ''] Solana,
      Keywords [''bnb'', ''binance smart chain'', ''bsc'', ''pancakeswap''] BnbChain,
      Keywords [''polygon'', ''matic''] Polygon,
      Keywords [''base '', ''base blockchain'', ''chain id 8453'', ''layer 2 base'',
                ''coinbase l2''] BaseBlockchain,
      Keywords [''layer 2'', ''l2'', ''optimism'', ''arbitrum'', ''rollup'', ''zksync''] Layer2,
      Keywords [''defi'', ''decentralized finance''] DeFi,
      Keywords [''nft'', ''non-fungible'', ''non fungible'', ''opensea'', ''digital art''] NFT,
      Keywords [''wallet'', ''metamask'', ''coinbase wallet'', ''rainbow''] WalletTopic,
      Keywords [''private key'', ''seed phrase'', ''mnemonic'', ''recovery phrase''] PrivateKey,
      Keywords [''gas'', ''gas fee'', ''gwei'', ''transaction fee''] GasFees,
      Keywords [''stablecoin'', ''usdc'', ''usdt'', ''dai'', ''stable coin''] Stablecoin,
      Keywords [''staking'', ''stake'', ''validator'', ''proof of stake''] Staking,
      Keywords [''memecoin'', ''meme coin'', ''doge'', ''shib'', ''pepe'', ''bonk'', ''wif''] Memecoins,
      Keywords [''smart contract'', ''solidity''] SmartContract,
      Keywords [''erc-20'', ''erc20'', ''fungible token''] ERC20,
      Keywords [''web3'', ''web 3'', ''blockchain technology''] Web3,
      Keywords [''dao'', ''decentralized autonomous'', ''governance'', ''voting''] DAO,
      Keywords [''yield farm'', ''yield farming'', ''provide liquidity'', ''lp token'',
                ''liquidity provider''] YieldFarming,
      Keywords [''airdrop'', ''air drop'', ''free token''] Airdrop,
      Keywords [''market cap'', ''marketcap'', ''mcap'', ''fully diluted''] MarketCap,
      Keywords [''volume'', ''trading volume'', ''volume 24h''] Volume,
      Keywords [''dyor'', ''do your own research'', ''research''] DYOR,
      Keywords [''rug pull'', ''rugpull'', ''scam'', ''honeypot''] RugPull,
      Keywords [''cold wallet'', ''hardware wallet'', ''ledger'', ''trezor'', ''hot wallet''] ColdWallet,
      Keywords [''fud'', ''fomo'', ''fear of missing'', ''bull run'', ''bear market''] FudFomo,
      Keywords [''weth'', ''wrapped eth'', ''wrapped ether''] WETH,
      Keywords [''tokenomics'', ''tokenomic'', ''supply'', ''vesting'', ''allocation''] Tokenomics,
      AddressLookup,
      Keywords [''price'', ''how much is'', ''how much does''] PriceQuestion,
      Keywords [''help'', ''command'', ''what can you''] Help]"

fun applies :: "string \<Rightarrow> fallback_rule \<Rightarrow> bool" where
  "applies q (Keywords ws t) = has q ws"
| "applies q AddressLookup = (address_match q \<noteq> None)"

fun answer_of :: "string \<Rightarrow> fallback_rule \<Rightarrow> answer" where
  "answer_of q (Keywords ws t) = Canned t"
| "answer_of q AddressLookup = AddressDetected (str_or (address_match q) [])"

definition select_answer :: "string \<Rightarrow> string option \<Rightarrow> answer" where
  "select_answer message errCode =
     (let q = toLowerCase message
      in case find (applies q) rules of
           Some r \<Rightarrow> answer_of q r
         | None \<Rightarrow> Menu (creditNote errCode))"

section \<open>Persistence layer: the chat_messages table\<close>

text \<open>
  The table \<open>chat_messages\<close> of the schema: a serial primary key, three non-null text
  columns and a nullable timestamp that defaults to the insertion time.  A row is a
  record, the table is the list of its rows, and the storage operations of
  \<open>PgStorage\<close> pass the table explicitly.  A failing database connection is outside
  this model: every operation is the statement it issues, run to completion.
\<close>

record ChatMessage =
  row_id :: nat
  sessionId :: string
  role :: string
  content :: string
  createdAt :: "nat option"

record InsertChatMessage =
  ins_sessionId :: string
  ins_role :: string
  ins_content :: string

type_synonym chat_table = "ChatMessage list"

text \<open>\<open>ORDER BY created_at\<close> is ascending, and PostgreSQL puts NULL last there.\<close>

definition created_key :: "ChatMessage \<Rightarrow> nat \<times> nat" where
  "created_key m = (case createdAt m of Some t \<Rightarrow> (0, t) | None \<Rightarrow> (1, 0))"

definition getChatHistory :: "chat_table \<Rightarrow> string \<Rightarrow> ChatMessage list" where
  "getChatHistory tbl sid = sort_key created_key (filter (\<lambda>m. sessionId m = sid) tbl)"

text \<open>
  \<open>insert ... returning\<close>: the serial column takes the next value of its sequence and
  \<open>created_at\<close> the current time; both are given by the database, so they are
  arguments here.  The new table and the inserted row are returned.
\<close>

definition addChatMessage ::
  "chat_table \<Rightarrow> nat \<Rightarrow> nat \<Rightarrow> InsertChatMessage \<Rightarrow> chat_table \<times> ChatMessage" where
  "addChatMessage tbl next_id now msg =
     (let row = \<lparr> row_id = next_id, sessionId = ins_sessionId msg, role = ins_role msg,
                   content = ins_content msg, createdAt = Some now \<rparr>
      in (tbl @ [row], row))"

definition clearChatHistory :: "chat_table \<Rightarrow> string \<Rightarrow> chat_table" where
  "clearChatHistory tbl sid = filter (\<lambda>m. sessionId m \<noteq> sid) tbl"

definition example_table :: chat_table where
  "example_table =
     [\<lparr> row_id = 1, sessionId = ''s1'', role = ''user'', content = ''hello'', createdAt = Some 10 \<rparr>,
      \<lparr> row_id = 2, sessionId = ''s2'', role = ''user'', content = ''what is defi'', createdAt = Some 11 \<rparr>,
      \<lparr> row_id = 3, sessionId = ''s1'', role = ''assistant'', content = ''hey'', createdAt = Some 12 \<rparr>]"

section \<open>Properties of token normalization\<close>





lemma member_truthy: "truthy v \<Longrightarrow> \<exists>x. member v k = Inr x"
  by (cases v) simp_all

lemma opt_member_total: "\<exists>x. opt_member v k = Inr x"
  by (cases v) simp_all

lemma market_truthy: "truthy (js_or rm (JObj []))"
  by (simp add: js_or_def)

lemma map_of_spread_with:
  "map_of (spread_with t kvs) = map_of t ++ map_of (rev kvs)"
  unfolding spread_with_def
proof (induction kvs arbitrary: t)
  case Nil
  show ?case by simp
next
  case (Cons kv kvs)
  obtain k v where kv: "kv = (k, v)" by (cases kv)
  have "map_of (fold (\<lambda>(k, v). AList.update k v) (kv # kvs) t) =
        map_of (AList.update k v t) ++ map_of (rev kvs)"
    using Cons.IH [of "AList.update k v t"] by (simp add: kv)
  also have "\<dots> = map_of t ++ map_of (rev (kv # kvs))"
    by (simp add: kv update_conv' fun_eq_iff map_add_def split: option.splits)
  finally show ?case .
qed

lemma keys_spread_with:
  "fst ` set (spread_with t kvs) = fst ` set t \<union> fst ` set kvs"
  unfolding spread_with_def
proof (induction kvs arbitrary: t)
  case Nil
  show ?case by simp
next
  case (Cons kv kvs)
  obtain k v where kv: "kv = (k, v)" by (cases kv)
  have "fst ` set (fold (\<lambda>(k, v). AList.update k v) kvs (AList.update k v t)) =
        fst ` set (AList.update k v t) \<union> fst ` set kvs"
    by (rule Cons.IH)
  then show ?case
    by (simp add: kv dom_update)
qed

text \<open>
  No read of \<open>normalizeToken\<close> throws: \<open>market\<close> is truthy, hence an object or a
  primitive that is not nullish.  When the record has no \<open>related\<close> property, the four
  values read from \<open>market\<close> are \<open>undefined\<close>.
\<close>

lemma normalizeToken_shape:
  "\<exists>b c d e f.
     normalizeToken t = Inr (spread_with t (canonical_values t b c d e f)) \<and>
     (map_of t ''related'' = None \<longrightarrow>
        b = JUndefined \<and> c = JUndefined \<and> d = JUndefined \<and> e = JUndefined)"
proof -
  obtain rm where rm: "opt_member (get_prop t ''related'') ''market'' = Inr rm"
    using opt_member_total by blast
  let ?market = "js_or rm (JObj [])"
  obtain b where b: "member ?market ''marketCap'' = Inr b"
    using member_truthy [OF market_truthy] by blast
  obtain c where c: "member ?market ''price'' = Inr c"
    using member_truthy [OF market_truthy] by blast
  obtain d where d: "member ?market ''priceChange24h'' = Inr d"
    using member_truthy [OF market_truthy] by blast
  obtain e where e: "member ?market ''volume24h'' = Inr e"
    using member_truthy [OF market_truthy] by blast
  obtain f where f: "opt_member (get_prop t ''social_context'') ''platform'' = Inr f"
    using opt_member_total by blast
  have absent: "b = JUndefined \<and> c = JUndefined \<and> d = JUndefined \<and> e = JUndefined"
    if "map_of t ''related'' = None"
  proof -
    from that rm have "rm = JUndefined" by (simp add: get_prop_def)
    then have "?market = JObj []" by (simp add: js_or_def)
    with b c d e show ?thesis by (simp add: get_prop_def)
  qed
  have "normalizeToken t = Inr (spread_with t (canonical_values t b c d e f))"
    by (simp add: normalizeToken_def rm b c d e f Let_def)
  with absent show ?thesis
    by (intro exI [of _ b] exI [of _ c] exI [of _ d] exI [of _ e] exI [of _ f]) simp
qed

lemma keys_canonical_values:
  "map fst (canonical_values t b c d e f) = canonical_fields"
  by (simp add: canonical_values_def canonical_fields_def)






text \<open>
  Claim C10.  The record returned has every property name of the input, and every
  property that is not one of the twelve canonical output fields has in the result
  exactly the value it has in the input (in particular, none is added or removed).
\<close>

theorem normalizeToken_frame:
  "\<exists>r. normalizeToken t = Inr r \<and>
       fst ` set t \<subseteq> fst ` set r \<and>
       (\<forall>k. k \<notin> set canonical_fields \<longrightarrow> map_of r k = map_of t k)"
proof -
  obtain b c d e f where
    r: "normalizeToken t = Inr (spread_with t (canonical_values t b c d e f))"
    using normalizeToken_shape by blast
  let ?kvs = "canonical_values t b c d e f"
  have "map_of (spread_with t ?kvs) k = map_of t k" if "k \<notin> set canonical_fields" for k
  proof -
    from that have "k \<notin> fst ` set (rev ?kvs)"
      using keys_canonical_values [of t b c d e f] by (metis set_map set_rev)
    then have "map_of (rev ?kvs) k = None"
      by (simp add: map_of_eq_None_iff)
    then show ?thesis
      by (simp add: map_of_spread_with map_add_def)
  qed
  moreover have "fst ` set t \<subseteq> fst ` set (spread_with t ?kvs)"
    by (simp add: keys_spread_with)
  ultimately show ?thesis using r by blast
qed

theorem normalizeToken_frame_witness:
  "''pool_address'' \<notin> set canonical_fields \<and> ''price'' \<in> set canonical_fields \<and>
   (\<exists>r. normalizeToken example_token = Inr r \<and>
        fst ` set example_token \<subseteq> fst ` set r \<and>
        map_of r ''pool_address'' = Some (JStr ''0xabc'') \<and>
        map_of r ''price'' = Some (JNum 2))"
proof -
  obtain r where r: "normalizeToken example_token = Inr r"
    and keys: "fst ` set example_token \<subseteq> fst ` set r"
    and frame: "\<forall>k. k \<notin> set canonical_fields \<longrightarrow> map_of r k = map_of example_token k"
    using normalizeToken_frame [of example_token] by blast
  have notin: "''pool_address'' \<notin> set canonical_fields"
    by (simp add: canonical_fields_def)
  with frame have "map_of r ''pool_address'' = Some (JStr ''0xabc'')"
    by (simp add: example_token_def)
  moreover have "map_of r ''price'' = Some (JNum 2)"
    using r
    by (auto simp add: normalizeToken_def example_token_def canonical_values_def
          spread_with_def js_or_def get_prop_def)
  ultimately show ?thesis
    using r keys notin by (simp add: canonical_fields_def)
qed

section \<open>Evaluating strings and patterns\<close>

text \<open>
  The numbers of the code units that occur in the examples, for the simplifier, and the
  same table read from the number to the code unit.
\<close>

lemma cu_table:
  "cu (CHR 0x09) = 9"
  "cu (CHR 0x0A) = 10"
  "cu (CHR 0x0D) = 13"
  "cu (CHR 0x20) = 32"
  "cu (CHR 0x21) = 33"
  "cu (CHR 0x22) = 34"
  "cu (CHR 0x23) = 35"
  "cu (CHR 0x24) = 36"
  "cu (CHR 0x25) = 37"
  "cu (CHR 0x26) = 38"
  "cu (CHR 0x27) = 39"
  "cu (CHR 0x28) = 40"
  "cu (CHR 0x29) = 41"
  "cu (CHR 0x2A) = 42"
  "cu (CHR 0x2B) = 43"
  "cu (CHR 0x2C) = 44"
  "cu (CHR 0x2D) = 45"
  "cu (CHR 0x2E) = 46"
  "cu (CHR 0x2F) = 47"
  "cu (CHR 0x30) = 48"
  "cu (CHR 0x31) = 49"
  "cu (CHR 0x32) = 50"
  "cu (CHR 0x33) = 51"
  "cu (CHR 0x34) = 52"
  "cu (CHR 0x35) = 53"
  "cu (CHR 0x36) = 54"
  "cu (CHR 0x37) = 55"
  "cu (CHR 0x38) = 56"
  "cu (CHR 0x39) = 57"
  "cu (CHR 0x3A) = 58"
  "cu (CHR 0x3B) = 59"
  "cu (CHR 0x3C) = 60"
  "cu (CHR 0x3D) = 61"
  "cu (CHR 0x3E) = 62"
  "cu (CHR 0x3F) = 63"
  "cu (CHR 0x40) = 64"
  "cu (CHR 0x41) = 65"
  "cu (CHR 0x42) = 66"
  "cu (CHR 0x43) = 67"
  "cu (CHR 0x44) = 68"
  "cu (CHR 0x45) = 69"
  "cu (CHR 0x46) = 70"
  "cu (CHR 0x47) = 71"
  "cu (CHR 0x48) = 72"
  "cu (CHR 0x49) = 73"
  "cu (CHR 0x4A) = 74"
  "cu (CHR 0x4B) = 75"
  "cu (CHR 0x4C) = 76"
  "cu (CHR 0x4D) = 77"
  "cu (CHR 0x4E) = 78"
  "cu (CHR 0x4F) = 79"
  "cu (CHR 0x50) = 80"
  "cu (CHR 0x51) = 81"
  "cu (CHR 0x52) = 82"
  "cu (CHR 0x53) = 83"
  "cu (CHR 0x54) = 84"
  "cu (CHR 0x55) = 85"
  "cu (CHR 0x56) = 86"
  "cu (CHR 0x57) = 87"
  "cu (CHR 0x58) = 88"
  "cu (CHR 0x59) = 89"
  "cu (CHR 0x5A) = 90"
  "cu (CHR 0x5B) = 91"
  "cu (CHR 0x5C) = 92"
  "cu (CHR 0x5D) = 93"
  "cu (CHR 0x5E) = 94"
  "cu (CHR 0x5F) = 95"
  "cu (CHR 0x60) = 96"
  "cu (CHR 0x61) = 97"
  "cu (CHR 0x62) = 98"
  "cu (CHR 0x63) = 99"
  "cu (CHR 0x64) = 100"
  "cu (CHR 0x65) = 101"
  "cu (CHR 0x66) = 102"
  "cu (CHR 0x67) = 103"
  "cu (CHR 0x68) = 104"
  "cu (CHR 0x69) = 105"
  "cu (CHR 0x6A) = 106"
  "cu (CHR 0x6B) = 107"
  "cu (CHR 0x6C) = 108"
  "cu (CHR 0x6D) = 109"
  "cu (CHR 0x6E) = 110"
  "cu (CHR 0x6F) = 111"
  "cu (CHR 0x70) = 112"
  "cu (CHR 0x71) = 113"
  "cu (CHR 0x72) = 114"
  "cu (CHR 0x73) = 115"
  "cu (CHR 0x74) = 116"
  "cu (CHR 0x75) = 117"
  "cu (CHR 0x76) = 118"
  "cu (CHR 0x77) = 119"
  "cu (CHR 0x78) = 120"
  "cu (CHR 0x79) = 121"
  "cu (CHR 0x7A) = 122"
  "cu (CHR 0x7B) = 123"
  "cu (CHR 0x7C) = 124"
  "cu (CHR 0x7D) = 125"
  "cu (CHR 0x7E) = 126"
  by (simp_all add: cu_def)

lemma char_of_cu: "cu c = n \<Longrightarrow> char_of n = c"
  by (auto simp add: cu_def)

lemmas char_of_table = cu_table [THEN char_of_cu]

text \<open>The same code units as word characters and as white space.\<close>

lemma is_word_table:
  "is_word (CHR 0x09) = False"
  "is_word (CHR 0x0A) = False"
  "is_word (CHR 0x0D) = False"
  "is_word (CHR 0x20) = False"
  "is_word (CHR 0x21) = False"
  "is_word (CHR 0x22) = False"
  "is_word (CHR 0x23) = False"
  "is_word (CHR 0x24) = False"
  "is_word (CHR 0x25) = False"
  "is_word (CHR 0x26) = False"
  "is_word (CHR 0x27) = False"
  "is_word (CHR 0x28) = False"
  "is_word (CHR 0x29) = False"
  "is_word (CHR 0x2A) = False"
  "is_word (CHR 0x2B) = False"
  "is_word (CHR 0x2C) = False"
  "is_word (CHR 0x2D) = False"
  "is_word (CHR 0x2E) = False"
  "is_word (CHR 0x2F) = False"
  "is_word (CHR 0x30) = True"
  "is_word (CHR 0x31) = True"
  "is_word (CHR 0x32) = True"
  "is_word (CHR 0x33) = True"
  "is_word (CHR 0x34) = True"
  "is_word (CHR 0x35) = True"
  "is_word (CHR 0x36) = True"
  "is_word (CHR 0x37) = True"
  "is_word (CHR 0x38) = True"
  "is_word (CHR 0x39) = True"
  "is_word (CHR 0x3A) = False"
  "is_word (CHR 0x3B) = False"
  "is_word (CHR 0x3C) = False"
  "is_word (CHR 0x3D) = False"
  "is_word (CHR 0x3E) = False"
  "is_word (CHR 0x3F) = False"
  "is_word (CHR 0x40) = False"
  "is_word (CHR 0x41) = True"
  "is_word (CHR 0x42) = True"
  "is_word (CHR 0x43) = True"
  "is_word (CHR 0x44) = True"
  "is_word (CHR 0x45) = True"
  "is_word (CHR 0x46) = True"
  "is_word (CHR 0x47) = True"
  "is_word (CHR 0x48) = True"
  "is_word (CHR 0x49) = True"
  "is_word (CHR 0x4A) = True"
  "is_word (CHR 0x4B) = True"
  "is_word (CHR 0x4C) = True"
  "is_word (CHR 0x4D) = True"
  "is_word (CHR 0x4E) = True"
  "is_word (CHR 0x4F) = True"
  "is_word (CHR 0x50) = True"
  "is_word (CHR 0x51) = True"
  "is_word (CHR 0x52) = True"
  "is_word (CHR 0x53) = True"
  "is_word (CHR 0x54) = True"
  "is_word (CHR 0x55) = True"
  "is_word (CHR 0x56) = True"
  "is_word (CHR 0x57) = True"
  "is_word (CHR 0x58) = True"
  "is_word (CHR 0x59) = True"
  "is_word (CHR 0x5A) = True"
  "is_word (CHR 0x5B) = False"
  "is_word (CHR 0x5C) = False"
  "is_word (CHR 0x5D) = False"
  "is_word (CHR 0x5E) = False"
  "is_word (CHR 0x5F) = True"
  "is_word (CHR 0x60) = False"
  "is_word (CHR 0x61) = True"
  "is_word (CHR 0x62) = True"
  "is_word (CHR 0x63) = True"
  "is_word (CHR 0x64) = True"
  "is_word (CHR 0x65) = True"
  "is_word (CHR 0x66) = True"
  "is_word (CHR 0x67) = True"
  "is_word (CHR 0x68) = True"
  "is_word (CHR 0x69) = True"
  "is_word (CHR 0x6A) = True"
  "is_word (CHR 0x6B) = True"
  "is_word (CHR 0x6C) = True"
  "is_word (CHR 0x6D) = True"
  "is_word (CHR 0x6E) = True"
  "is_word (CHR 0x6F) = True"
  "is_word (CHR 0x70) = True"
  "is_word (CHR 0x71) = True"
  "is_word (CHR 0x72) = True"
  "is_word (CHR 0x73) = True"
  "is_word (CHR 0x74) = True"
  "is_word (CHR 0x75) = True"
  "is_word (CHR 0x76) = True"
  "is_word (CHR 0x77) = True"
  "is_word (CHR 0x78) = True"
  "is_word (CHR 0x79) = True"
  "is_word (CHR 0x7A) = True"
  "is_word (CHR 0x7B) = False"
  "is_word (CHR 0x7C) = False"
  "is_word (CHR 0x7D) = False"
  "is_word (CHR 0x7E) = False"
  by (simp_all add: is_word_def in_range_def cu_table)

lemma is_space_table:
  "is_space (CHR 0x09) = True"
  "is_space (CHR 0x0A) = True"
  "is_space (CHR 0x0D) = True"
  "is_space (CHR 0x20) = True"
  "is_space (CHR 0x21) = False"
  "is_space (CHR 0x22) = False"
  "is_space (CHR 0x23) = False"
  "is_space (CHR 0x24) = False"
  "is_space (CHR 0x25) = False"
  "is_space (CHR 0x26) = False"
  "is_space (CHR 0x27) = False"
  "is_space (CHR 0x28) = False"
  "is_space (CHR 0x29) = False"
  "is_space (CHR 0x2A) = False"
  "is_space (CHR 0x2B) = False"
  "is_space (CHR 0x2C) = False"
  "is_space (CHR 0x2D) = False"
  "is_space (CHR 0x2E) = False"
  "is_space (CHR 0x2F) = False"
  "is_space (CHR 0x30) = False"
  "is_space (CHR 0x31) = False"
  "is_space (CHR 0x32) = False"
  "is_space (CHR 0x33) = False"
  "is_space (CHR 0x34) = False"
  "is_space (CHR 0x35) = False"
  "is_space (CHR 0x36) = False"
  "is_space (CHR 0x37) = False"
  "is_space (CHR 0x38) = False"
  "is_space (CHR 0x39) = False"
  "is_space (CHR 0x3A) = False"
  "is_space (CHR 0x3B) = False"
  "is_space (CHR 0x3C) = False"
  "is_space (CHR 0x3D) = False"
  "is_space (CHR 0x3E) = False"
  "is_space (CHR 0x3F) = False"
  "is_space (CHR 0x40) = False"
  "is_space (CHR 0x41) = False"
  "is_space (CHR 0x42) = False"
  "is_space (CHR 0x43) = False"
  "is_space (CHR 0x44) = False"
  "is_space (CHR 0x45) = False"
  "is_space (CHR 0x46) = False"
  "is_space (CHR 0x47) = False"
  "is_space (CHR 0x48) = False"
  "is_space (CHR 0x49) = False"
  "is_space (CHR 0x4A) = False"
  "is_space (CHR 0x4B) = False"
  "is_space (CHR 0x4C) = False"
  "is_space (CHR 0x4D) = False"
  "is_space (CHR 0x4E) = False"
  "is_space (CHR 0x4F) = False"
  "is_space (CHR 0x50) = False"
  "is_space (CHR 0x51) = False"
  "is_space (CHR 0x52) = False"
  "is_space (CHR 0x53) = False"
  "is_space (CHR 0x54) = False"
  "is_space (CHR 0x55) = False"
  "is_space (CHR 0x56) = False"
  "is_space (CHR 0x57) = False"
  "is_space (CHR 0x58) = False"
  "is_space (CHR 0x59) = False"
  "is_space (CHR 0x5A) = False"
  "is_space (CHR 0x5B) = False"
  "is_space (CHR 0x5C) = False"
  "is_space (CHR 0x5D) = False"
  "is_space (CHR 0x5E) = False"
  "is_space (CHR 0x5F) = False"
  "is_space (CHR 0x60) = False"
  "is_space (CHR 0x61) = False"
  "is_space (CHR 0x62) = False"
  "is_space (CHR 0x63) = False"
  "is_space (CHR 0x64) = False"
  "is_space (CHR 0x65) = False"
  "is_space (CHR 0x66) = False"
  "is_space (CHR 0x67) = False"
  "is_space (CHR 0x68) = False"
  "is_space (CHR 0x69) = False"
  "is_space (CHR 0x6A) = False"
  "is_space (CHR 0x6B) = False"
  "is_space (CHR 0x6C) = False"
  "is_space (CHR 0x6D) = False"
  "is_space (CHR 0x6E) = False"
  "is_space (CHR 0x6F) = False"
  "is_space (CHR 0x70) = False"
  "is_space (CHR 0x71) = False"
  "is_space (CHR 0x72) = False"
  "is_space (CHR 0x73) = False"
  "is_space (CHR 0x74) = False"
  "is_space (CHR 0x75) = False"
  "is_space (CHR 0x76) = False"
  "is_space (CHR 0x77) = False"
  "is_space (CHR 0x78) = False"
  "is_space (CHR 0x79) = False"
  "is_space (CHR 0x7A) = False"
  "is_space (CHR 0x7B) = False"
  "is_space (CHR 0x7C) = False"
  "is_space (CHR 0x7D) = False"
  "is_space (CHR 0x7E) = False"
  by (simp_all add: is_space_def cu_table)

lemmas pattern_defs = seqs_def lit_def plus_def lazy_plus_def colon_or_space_def newline_def
  letters_def

lemmas char_eval = cu_table char_of_table is_word_table is_space_table canonicalize_def
  upper_code_def lower_code_def upper_char_def lower_char_def is_lower_def is_upper_def
  in_range_def between_def is_line_terminator_def

lemmas match_eval = js_match_def or_match_def group_text_def slice_def trim_def at_boundary_def
  accept_def below_def startsWith_def

section \<open>Properties of the deploy-intent parser\<close>

text \<open>What \<open>startsWith\<close> and \<open>includes\<close> decide.\<close>

lemma startsWith_iff: "startsWith s p \<longleftrightarrow> (\<exists>suf. s = p @ suf)"
proof
  assume "startsWith s p"
  then have "s = p @ drop (length p) s"
    by (metis append_take_drop_id startsWith_def)
  then show "\<exists>suf. s = p @ suf" ..
next
  assume "\<exists>suf. s = p @ suf"
  then show "startsWith s p"
    by (auto simp add: startsWith_def)
qed

lemma includes_str_iff: "includes_str s w \<longleftrightarrow> (\<exists>pre suf. s = pre @ w @ suf)"
proof (induction s)
  case Nil
  show ?case by auto
next
  case (Cons c cs)
  show ?case
  proof
    assume "includes_str (c # cs) w"
    then consider "startsWith (c # cs) w" | "includes_str cs w"
      by (auto split: if_splits)
    then show "\<exists>pre suf. c # cs = pre @ w @ suf"
    proof cases
      case 1
      then obtain suf where "c # cs = w @ suf"
        using startsWith_iff by blast
      then have "c # cs = [] @ w @ suf" by simp
      then show ?thesis by blast
    next
      case 2
      then obtain pre suf where "cs = pre @ w @ suf"
        using Cons.IH by blast
      then have "c # cs = (c # pre) @ w @ suf" by simp
      then show ?thesis by blast
    qed
  next
    assume "\<exists>pre suf. c # cs = pre @ w @ suf"
    then obtain pre suf where eq: "c # cs = pre @ w @ suf" by blast
    show "includes_str (c # cs) w"
    proof (cases pre)
      case Nil
      with eq have "startsWith (c # cs) w"
        using startsWith_iff by auto
      then show ?thesis by simp
    next
      case (Cons a pre')
      with eq have "cs = pre' @ w @ suf" by simp
      then have "includes_str cs w"
        using Cons.IH by blast
      then show ?thesis by simp
    qed
  qed
qed

text \<open>
  Claim C7.  \<open>parseDeployMessage\<close> returns \<open>null\<close> for every text that, in lower
  case, contains none of \<open>deploy\<close>, \<open>launch\<close> and \<open>create token\<close>, and for every
  text from which neither a truthy name nor a truthy symbol is extracted; whenever it
  returns parameters, they are the extracted fields and the name or the symbol is truthy.
\<close>

theorem parseDeployMessage_null_cases:
  "(\<not> includes_str (toLowerCase text) ''deploy'' \<and>
    \<not> includes_str (toLowerCase text) ''launch'' \<and>
    \<not> includes_str (toLowerCase text) ''create token'' \<longrightarrow> parseDeployMessage text = None) \<and>
   (\<not> truthy_str (parse_name text) \<and> \<not> truthy_str (parse_symbol text) \<longrightarrow>
      parseDeployMessage text = None) \<and>
   (\<forall>p. parseDeployMessage text = Some p \<longrightarrow>
      name p = parse_name text \<and> symbol p = parse_symbol text \<and>
      (truthy_str (name p) \<or> truthy_str (symbol p)))"
  by (auto simp add: parseDeployMessage_def Let_def split: if_splits)

lemma hello_no_keyword:
  "\<not> includes_str (toLowerCase ''hello'') ''deploy''"
  "\<not> includes_str (toLowerCase ''hello'') ''launch''"
  "\<not> includes_str (toLowerCase ''hello'') ''create token''"
  by (simp_all add: toLowerCase_def char_eval startsWith_def)

lemma please_deploy_keyword: "includes_str (toLowerCase ''please deploy'') ''deploy''"
  by (simp add: toLowerCase_def char_eval startsWith_def)

lemma name_please_deploy: "parse_name ''please deploy'' = None"
  by (simp add: parse_name_def name_re1_def name_re2_def pattern_defs match_eval char_eval)

lemma symbol_please_deploy: "parse_symbol ''please deploy'' = None"
  by (simp add: parse_symbol_def symbol_re1_def symbol_re2_def pattern_defs match_eval char_eval)

lemma short_request_keyword:
  "includes_str (toLowerCase ''deploy name: A symbol: AB'') ''deploy''"
  by (simp add: toLowerCase_def char_eval startsWith_def)

lemma name_short_request: "parse_name ''deploy name: A symbol: AB'' = Some ''A''"
  by (simp add: parse_name_def name_re1_def pattern_defs match_eval char_eval)

lemma symbol_short_request: "parse_symbol ''deploy name: A symbol: AB'' = Some ''AB''"
  by (simp add: parse_symbol_def symbol_re1_def pattern_defs match_eval char_eval
        toUpperCase_def)


theorem parseDeployMessage_null_cases_witness:
  "\<not> includes_str (toLowerCase ''hello'') ''deploy'' \<and>
   \<not> includes_str (toLowerCase ''hello'') ''launch'' \<and>
   \<not> includes_str (toLowerCase ''hello'') ''create token'' \<and>
   parseDeployMessage ''hello'' = None \<and>
   includes_str (toLowerCase ''please deploy'') ''deploy'' \<and>
   \<not> truthy_str (parse_name ''please deploy'') \<and>
   \<not> truthy_str (parse_symbol ''please deploy'') \<and>
   parseDeployMessage ''please deploy'' = None \<and>
   (\<exists>p. parseDeployMessage ''deploy name: A symbol: AB'' = Some p \<and>
        name p = Some ''A'' \<and> symbol p = Some ''AB'' \<and> truthy_str (name p))"
proof -
  have neither: "\<not> truthy_str (parse_name ''please deploy'')"
    "\<not> truthy_str (parse_symbol ''please deploy'')"
    by (simp_all add: name_please_deploy symbol_please_deploy truthy_str_def)
  have "\<exists>p. parseDeployMessage ''deploy name: A symbol: AB'' = Some p"
    by (simp add: parseDeployMessage_def Let_def short_request_keyword name_short_request
          truthy_str_def)
  then obtain p where p: "parseDeployMessage ''deploy name: A symbol: AB'' = Some p" ..
  with parseDeployMessage_null_cases [of "''deploy name: A symbol: AB''"]
  have "name p = Some ''A''" "symbol p = Some ''AB''" "truthy_str (name p)"
    by (simp_all add: name_short_request symbol_short_request truthy_str_def)
  with p have last: "\<exists>p. parseDeployMessage ''deploy name: A symbol: AB'' = Some p \<and>
      name p = Some ''A'' \<and> symbol p = Some ''AB'' \<and> truthy_str (name p)"
    by blast
  have hello: "parseDeployMessage ''hello'' = None"
    using parseDeployMessage_null_cases [of "''hello''"] hello_no_keyword by simp
  have please: "parseDeployMessage ''please deploy'' = None"
    using parseDeployMessage_null_cases [of "''please deploy''"] neither by simp
  show ?thesis
    using hello please hello_no_keyword please_deploy_keyword neither last by simp
qed

subsection \<open>The matcher on texts with unknown parts\<close>

lemma cu_less: "cu c < 256"
  by (simp add: cu_def)

lemma cu_inject: "cu a = cu b \<longleftrightarrow> a = b"
  by (simp add: cu_def)

lemma char_of_eq_cu: "n < 256 \<Longrightarrow> char_of n = c \<longleftrightarrow> n = cu c"
  by (simp add: char_of_eq_iff cu_def take_bit_eq_mod)

text \<open>
  A lower-case letter of the alphabet is matched under the flag \<open>i\<close> by itself and by
  its upper case, which are the two code units that \<open>toLowerCase\<close> sends to it.
\<close>

lemma lower_char_iff:
  assumes "in_range CHR ''a'' CHR ''z'' l"
  shows "lower_char c = l \<longleftrightarrow> cu c = cu l \<or> cu c + 32 = cu l"
  using assms cu_less [of c]
  by (auto simp add: lower_char_def lower_code_def is_upper_def in_range_def cu_table
        char_of_eq_cu)

lemma canonicalize_iff:
  assumes "in_range CHR ''a'' CHR ''z'' l"
  shows "canonicalize True c = canonicalize True l \<longleftrightarrow> cu c = cu l \<or> cu c + 32 = cu l"
  using assms
  by (auto simp add: canonicalize_def upper_code_def is_lower_def in_range_def cu_table)

lemma lit_Cons: "lit (y # w) = Seq (A (Chr y)) (lit w)"
  by (simp add: lit_def)

lemma matcher_lit:
  "matcher ic (lit w) p s i c k =
     (if list_all2 (\<lambda>x y. atom_ok ic (Chr y) x) (take (length w) s) w
      then k (if w = [] then p else Some (s ! (length w - 1))) (drop (length w) s)
             (i + length w) c
      else None)"
proof (induction w arbitrary: p s i)
  case Nil
  show ?case by (simp add: lit_def)
next
  case (Cons y w)
  show ?case
  proof (cases s)
    case Nil
    then show ?thesis by (simp add: lit_Cons)
  next
    case (Cons x xs)
    then show ?thesis
      by (simp add: lit_Cons Cons.IH nth_Cons')
  qed
qed

lemma lit_ci:
  assumes "list_all (in_range CHR ''a'' CHR ''z'') w"
  shows "list_all2 (\<lambda>x y. atom_ok True (Chr y) x) xs w \<longleftrightarrow> toLowerCase xs = w"
  using assms
proof (induction w arbitrary: xs)
  case Nil
  show ?case by (simp add: toLowerCase_def)
next
  case (Cons y w)
  then have y: "in_range CHR ''a'' CHR ''z'' y" and w: "list_all (in_range CHR ''a'' CHR ''z'') w"
    by simp_all
  show ?case
  proof (cases xs)
    case Nil
    then show ?thesis by (simp add: toLowerCase_def)
  next
    case (Cons x xs')
    have "atom_ok True (Chr y) x \<longleftrightarrow> lower_char x = y"
      by (simp add: canonicalize_iff [OF y] lower_char_iff [OF y])
    with Cons.IH [OF w, of xs'] Cons show ?thesis
      by (simp add: toLowerCase_def)
  qed
qed

lemma lit_cs: "list_all2 (\<lambda>x y. atom_ok False (Chr y) x) xs w \<longleftrightarrow> xs = w"
  by (simp add: canonicalize_def cu_inject list_all2_eq [symmetric])

text \<open>A literal word in a pattern: it takes the text it is at, or the match fails.\<close>

lemma matcher_word_ci:
  assumes "list_all (in_range CHR ''a'' CHR ''z'') w" and "w \<noteq> []"
  shows "matcher True (lit w) p s i c k =
     (if startsWith (toLowerCase s) w
      then k (Some (s ! (length w - 1))) (drop (length w) s) (i + length w) c
      else None)"
  using assms(2)
  by (simp add: matcher_lit lit_ci [OF assms(1)] startsWith_def toLowerCase_def take_map
        del: atom_ok.simps)

lemma matcher_word_cs:
  assumes "w \<noteq> []"
  shows "matcher False (lit w) p s i c k =
     (if startsWith s w
      then k (Some (s ! (length w - 1))) (drop (length w) s) (i + length w) c
      else None)"
  using assms by (simp add: matcher_lit lit_cs startsWith_def del: atom_ok.simps)

text \<open>
  The search goes past a stretch of text in which the pattern matches nowhere.
\<close>

lemma search_skip:
  assumes "\<And>j. j < length a \<Longrightarrow>
             matcher ic r (if j = 0 then p else Some (a ! (j - 1))) (drop j a @ b) (i + j) None
               accept = None"
  shows "search ic r p (a @ b) i =
           search ic r (if a = [] then p else Some (last a)) b (i + length a)"
  using assms
proof (induction a arbitrary: p i)
  case Nil
  show ?case by simp
next
  case (Cons x xs)
  from Cons.prems [of 0] have first: "matcher ic r p (x # xs @ b) i None accept = None"
    by simp
  have rest: "matcher ic r (if j = 0 then Some x else Some (xs ! (j - 1))) (drop j xs @ b)
      (Suc i + j) None accept = None" if "j < length xs" for j
    using Cons.prems [of "Suc j"] that by (cases j) simp_all
  from Cons.IH [of "Some x" "Suc i", OF rest]
  have "search ic r (Some x) (xs @ b) (Suc i) =
      search ic r (if xs = [] then Some x else Some (last xs)) b (Suc i + length xs)"
    by simp
  with first show ?case by simp
qed

text \<open>
  A word that does not occur in a stretch of text and cannot run over its end does not
  begin anywhere in it.
\<close>

lemma no_start:
  assumes "\<not> includes_str a w" and "b \<noteq> []" and "hd b \<notin> set (tl w)" and "j < length a"
  shows "\<not> startsWith (drop j a @ b) w"
proof
  assume "startsWith (drop j a @ b) w"
  then have eq: "take (length w) (drop j a) @ take (length w - (length a - j)) b = w"
    by (simp add: startsWith_def)
  show False
  proof (cases "length w \<le> length a - j")
    case True
    with eq have "take (length w) (drop j a) = w" by simp
    then have "a = take j a @ w @ drop (length w) (drop j a)"
      by (metis append_take_drop_id)
    with assms(1) show False
      using includes_str_iff by blast
  next
    case False
    define m where "m = length a - j"
    from False assms(4) have m: "0 < m" "m < length w"
      by (simp_all add: m_def)
    from eq False have w: "w = drop j a @ take (length w - m) b"
      by (simp add: m_def)
    have "length (drop j a) = m" by (simp add: m_def)
    with w m have "w ! m = take (length w - m) b ! 0"
      by (metis nth_append_length_plus add.right_neutral)
    also from m assms(2) have "\<dots> = hd b"
      by (cases b) simp_all
    finally have "w ! m = hd b" .
    moreover from m have "w ! m \<in> set (tl w)"
      by (cases w) (auto simp add: nth_Cons')
    ultimately show False using assms(3) by simp
  qed
qed

lemma no_start_ci:
  assumes "\<not> includes_str (toLowerCase a) w" and "b \<noteq> []"
    and "hd (toLowerCase b) \<notin> set (tl w)" and "j < length a"
  shows "\<not> startsWith (toLowerCase (drop j a @ b)) w"
proof -
  have "\<not> startsWith (drop j (toLowerCase a) @ toLowerCase b) w"
    using assms by (intro no_start) (simp_all add: toLowerCase_def)
  then show ?thesis
    by (simp add: toLowerCase_def drop_map)
qed

text \<open>
  Repetition.  The greedy one takes a run \<open>xs\<close> of code units of the class that ends
  where the class or the bound ends, when the rest of the pattern matches from there.
  The lazy one stops at the first length from which the rest of the pattern matches.
  And the greedy one fails when the rest of the pattern fails after every run it can take.
\<close>

lemma rep_greedy_exact:
  "list_all ok xs \<Longrightarrow> n + length xs = m \<Longrightarrow>
   rep_greedy ok m (Some m) n p (xs @ rest) i c k =
     k (if xs = [] then p else Some (last xs)) rest (i + length xs) c"
proof (induction xs arbitrary: n p i)
  case Nil
  then show ?case by (cases rest) (simp_all add: below_def)
next
  case (Cons x xs)
  from Cons.prems have ok: "ok x" "list_all ok xs" and n: "Suc n + length xs = m" "n < m"
    by simp_all
  have "rep_greedy ok m (Some m) (Suc n) (Some x) (xs @ rest) (Suc i) c k =
        k (if xs = [] then Some x else Some (last xs)) rest (Suc i + length xs) c"
    using Cons.IH [OF ok(2) n(1)] by simp
  with ok(1) n(2) show ?case
    by (simp add: below_def split: option.split)
qed

lemma rep_greedy_run:
  assumes "list_all ok xs" and "rest = [] \<or> \<not> ok (hd rest)" and "lo \<le> n + length xs"
    and "\<forall>h. hi = Some h \<longrightarrow> n + length xs \<le> h"
    and "k (if xs = [] then p else Some (last xs)) rest (i + length xs) c = Some r"
  shows "rep_greedy ok lo hi n p (xs @ rest) i c k = Some r"
  using assms
proof (induction xs arbitrary: n p i)
  case Nil
  then show ?case by (cases rest) simp_all
next
  case (Cons x xs)
  from Cons.prems have ok: "ok x" "list_all ok xs" and b: "below hi n"
    by (auto simp add: below_def split: option.split)
  have "rep_greedy ok lo hi (Suc n) (Some x) (xs @ rest) (Suc i) c k = Some r"
    using Cons.prems by (intro Cons.IH) (simp_all add: ok split: if_splits)
  with ok(1) b show ?case by simp
qed

lemma rep_lazy_first:
  assumes "list_all ok xs" and "lo \<le> n + length xs" and "hi = None"
    and "\<And>j. j < length xs \<Longrightarrow> lo \<le> n + j \<Longrightarrow>
           k (if j = 0 then p else Some (xs ! (j - 1))) (drop j xs @ rest) (i + j) c = None"
    and "k (if xs = [] then p else Some (last xs)) rest (i + length xs) c = Some r"
  shows "rep_lazy ok lo hi n p (xs @ rest) i c k = Some r"
  using assms
proof (induction xs arbitrary: n p i)
  case Nil
  then show ?case by (cases rest) simp_all
next
  case (Cons x xs)
  from Cons.prems(1) have ok: "ok x" "list_all ok xs" by simp_all
  from Cons.prems(4) [of 0] have here: "lo \<le> n \<Longrightarrow> k p (x # xs @ rest) i c = None"
    by simp
  have later: "k (if j = 0 then Some x else Some (xs ! (j - 1))) (drop j xs @ rest)
      (Suc i + j) c = None" if "j < length xs" "lo \<le> Suc n + j" for j
    using Cons.prems(4) [of "Suc j"] that by (cases j) simp_all
  have "rep_lazy ok lo hi (Suc n) (Some x) (xs @ rest) (Suc i) c k = Some r"
    using Cons.prems(2,3,5) ok(2) later by (intro Cons.IH) (simp_all split: if_splits)
  with ok(1) here Cons.prems(3) show ?case
    by (simp add: below_def)
qed

lemma rep_greedy_None:
  assumes "\<And>xs r q. s = xs @ r \<Longrightarrow> list_all ok xs \<Longrightarrow> lo \<le> n + length xs \<Longrightarrow>
             k q r (i + length xs) c = None"
  shows "rep_greedy ok lo hi n p s i c k = None"
  using assms
proof (induction s arbitrary: n p i)
  case Nil
  from Nil [of "[]" "[]" p] show ?case by simp
next
  case (Cons x s)
  have here: "lo \<le> n \<Longrightarrow> k p (x # s) i c = None"
    using Cons.prems [of "[]" "x # s" p] by simp
  have "rep_greedy ok lo hi (Suc n) (Some x) s (Suc i) c k = None" if "ok x"
  proof (rule Cons.IH)
    fix xs r q
    assume "s = xs @ r" "list_all ok xs" "lo \<le> Suc n + length xs"
    with that Cons.prems [of "x # xs" r q] show "k q r (Suc i + length xs) c = None"
      by simp
  qed
  with here show ?case by simp
qed

text \<open>A code unit that is not a letter is matched by itself only, with or without \<open>i\<close>.\<close>

lemma canonicalize_other:
  assumes "\<not> is_lower y" and "\<not> is_upper y"
  shows "canonicalize ic x = canonicalize ic y \<longleftrightarrow> x = y"
  using assms
  by (auto simp add: canonicalize_def upper_code_def is_lower_def is_upper_def in_range_def
        cu_table cu_inject)

lemma canonicalize_marks:
  "canonicalize ic x = canonicalize ic CHR '':'' \<longleftrightarrow> x = CHR '':''"
  "canonicalize ic x = canonicalize ic CHR '','' \<longleftrightarrow> x = CHR '',''"
  "canonicalize ic x = canonicalize ic CHR '';'' \<longleftrightarrow> x = CHR '';''"
  "canonicalize ic x = canonicalize ic newline \<longleftrightarrow> x = newline"
  "canonicalize ic x = canonicalize ic (CHR 0x0A) \<longleftrightarrow> x = CHR 0x0A"
  by (simp_all add: canonicalize_other is_lower_def is_upper_def in_range_def cu_table
        newline_def)

lemma colon_space_run:
  assumes "s \<noteq> []" and "hd s \<noteq> CHR '':''" and "\<not> is_space (hd s)"
    and "k (Some CHR '' '') s (i + 2) c = Some r"
  shows "matcher ic (plus colon_or_space) q ('': '' @ s) i c k = Some r"
proof -
  have ok: "list_all (atom_ok ic (Cls [CC CHR '':'', CS])) '': ''"
    by (simp add: is_space_table canonicalize_marks)
  have stop: "s = [] \<or> \<not> atom_ok ic (Cls [CC CHR '':'', CS]) (hd s)"
    using assms(2,3) by (simp add: canonicalize_marks)
  have "rep_greedy (atom_ok ic (Cls [CC CHR '':'', CS])) 1 None 0 q ('': '' @ s) i c k = Some r"
    using ok stop assms(4) by (intro rep_greedy_run) simp_all
  then show ?thesis
    by (simp only: plus_def colon_or_space_def matcher.simps if_True)
qed

text \<open>
  Each of the three patterns begins with a word, so it matches only where that word is.
\<close>

lemma name_re1_start:
  "\<not> startsWith (toLowerCase s) ''name'' \<Longrightarrow> matcher True name_re1 p s i c k = None"
  by (simp add: name_re1_def seqs_def matcher_word_ci in_range_def cu_table)

lemma symbol_re1_start:
  "\<not> startsWith (toLowerCase s) ''symbol'' \<Longrightarrow> \<not> startsWith (toLowerCase s) ''ticker'' \<Longrightarrow>
   matcher True symbol_re1 p s i c k = None"
  by (simp add: symbol_re1_def seqs_def matcher_word_ci in_range_def cu_table)

lemma wallet_re_start:
  "\<not> startsWith s ''0x'' \<Longrightarrow> matcher False wallet_re p s i c k = None"
  by (simp add: wallet_re_def seqs_def matcher_word_cs)

lemma startsWith_before:
  assumes "startsWith (a @ b) w" and "b \<noteq> []" and "hd b \<notin> set w"
  shows "startsWith a w"
proof (cases "length w \<le> length a")
  case True
  with assms(1) show ?thesis by (simp add: startsWith_def)
next
  case False
  with assms(1) have "w = a @ take (length w - length a) b"
    by (simp add: startsWith_def)
  moreover from False obtain k where "length w - length a = Suc k"
    by (cases "length w - length a") auto
  ultimately have "hd b \<in> set w"
    using assms(2) by (cases b) (auto simp add: in_set_conv_decomp)
  with assms(3) show ?thesis by simp
qed

lemma startsWith_append: "startsWith a w \<Longrightarrow> startsWith (a @ b) w"
  by (auto simp add: startsWith_iff)

text \<open>
  The lookahead of the name pattern inside a name: it needs white space and then one of
  the stop words, so it fails wherever no stop word begins after white space.
\<close>

lemma name_words_fail:
  assumes "u \<noteq> []" and "\<not> stop_at (u @ '' '')"
  shows "matcher True
           (alts [lit ''symbol'', lit ''ticker'', Seq (lit ''x'') (A Sp), lit ''twitter'',
                  lit ''website'', lit ''wallet'', lit ''image'', lit ''description''])
           q (u @ '' Symbol: '' @ rest) i c accept = None"
proof -
  let ?s = "u @ '' Symbol: '' @ rest"
  have low: "toLowerCase ?s = toLowerCase u @ toLowerCase ('' Symbol: '' @ rest)"
    "toLowerCase (u @ '' '') = toLowerCase u @ '' ''"
    by (simp_all add: toLowerCase_def char_eval)
  have word: "\<not> startsWith (toLowerCase ?s) w" if "w \<in> set stop_words" for w
  proof
    assume "startsWith (toLowerCase ?s) w"
    then have "startsWith (toLowerCase u @ toLowerCase ('' Symbol: '' @ rest)) w"
      by (simp only: low)
    moreover have "toLowerCase ('' Symbol: '' @ rest) \<noteq> []"
      by (simp add: toLowerCase_def)
    moreover have "hd (toLowerCase ('' Symbol: '' @ rest)) \<notin> set w"
      using that by (auto simp add: stop_words_def toLowerCase_def char_eval)
    ultimately have "startsWith (toLowerCase u) w"
      by (rule startsWith_before)
    then have "startsWith (toLowerCase (u @ '' '')) w"
      unfolding low by (rule startsWith_append)
    with that assms(2) show False
      by (auto simp add: stop_at_def list_ex_iff)
  qed
  have x: "\<not> (startsWith (toLowerCase ?s) ''x'' \<and> is_space (?s ! 1))"
  proof
    assume a: "startsWith (toLowerCase ?s) ''x'' \<and> is_space (?s ! 1)"
    from assms(1) obtain y ys where u: "u = y # ys" by (cases u) auto
    from a u have "startsWith (toLowerCase (u @ '' '')) ''x''"
      by (simp add: startsWith_def toLowerCase_def)
    moreover from a u have "is_space ((u @ '' '') ! 1)"
      by (cases ys) (simp_all add: is_space_table)
    moreover from u have "1 < length (u @ '' '')" by simp
    ultimately show False
      using assms(2) by (simp add: stop_at_def)
  qed
  have words: "\<not> startsWith (toLowerCase ?s) ''symbol''" "\<not> startsWith (toLowerCase ?s) ''ticker''"
    "\<not> startsWith (toLowerCase ?s) ''twitter''" "\<not> startsWith (toLowerCase ?s) ''website''"
    "\<not> startsWith (toLowerCase ?s) ''wallet''" "\<not> startsWith (toLowerCase ?s) ''image''"
    "\<not> startsWith (toLowerCase ?s) ''description''"
    using word by (simp_all add: stop_words_def)
  have sp: "startsWith (toLowerCase ?s) ''x'' \<Longrightarrow> \<not> is_space (hd (drop 1 ?s))"
    using x assms(1) by (cases u) (auto simp add: hd_conv_nth drop_Suc)
  show ?thesis
    using words sp
    by (auto simp add: matcher_word_ci in_range_def cu_table split: list.splits)
qed

lemma name_stop_fails:
  assumes "j < length nm" and "\<not> is_space (last nm)"
    and "\<forall>j<length nm. is_space (nm ! j) \<longrightarrow> \<not> stop_at (drop (Suc j) (nm @ '' ''))"
  shows "matcher True
           (Alt (Seq (plus Sp)
                   (alts [lit ''symbol'', lit ''ticker'', Seq (lit ''x'') (A Sp), lit ''twitter'',
                          lit ''website'', lit ''wallet'', lit ''image'', lit ''description'']))
                Eos)
           p (drop j nm @ '' Symbol: '' @ rest) i c accept = None"
proof -
  let ?words = "alts [lit ''symbol'', lit ''ticker'', Seq (lit ''x'') (A Sp), lit ''twitter'',
                      lit ''website'', lit ''wallet'', lit ''image'', lit ''description'']"
  let ?s = "'' Symbol: '' @ rest"
  let ?d = "drop j nm"
  have d: "?d \<noteq> []" "last ?d = last nm"
    using assms(1) by simp_all
  have "rep_greedy (atom_ok True Sp) 1 None 0 p (?d @ ?s) i c
      (\<lambda>p' s' i' c'. matcher True ?words p' s' i' c' accept) = None"
  proof (rule rep_greedy_None)
    fix xs r q
    assume split: "?d @ ?s = xs @ r" and sp: "list_all (atom_ok True Sp) xs"
      and len: "1 \<le> 0 + length xs"
    have short: "length xs < length ?d"
    proof (rule ccontr)
      assume "\<not> length xs < length ?d"
      then have "length ?d \<le> length xs" by simp
      with split have "?d = take (length ?d) xs"
        by (metis append_eq_append_conv_if)
      then have "set ?d \<subseteq> set xs"
        by (metis set_take_subset)
      with d have "last nm \<in> set xs"
        by (metis last_in_set subsetD)
      with sp assms(2) show False
        by (simp add: list_all_iff)
    qed
    then have xs: "xs = take (length xs) ?d" and r: "r = drop (length xs) ?d @ ?s"
      using split by (simp_all add: append_eq_append_conv_if)
    let ?m = "j + length xs"
    from short have m: "?m < length nm" by simp
    from len have pos: "0 < length xs" and ne: "xs \<noteq> []" by auto
    from ne have "last xs = xs ! (length xs - 1)"
      by (rule last_conv_nth)
    also from pos have "\<dots> = ?d ! (length xs - 1)"
      by (subst xs) simp
    also from short pos have "\<dots> = nm ! (?m - 1)"
      by (cases "length xs") simp_all
    finally have "last xs = nm ! (?m - 1)" .
    moreover from sp ne have "is_space (last xs)"
      by (simp add: list_all_iff)
    ultimately have "is_space (nm ! (?m - 1))" by simp
    moreover from m have "?m - 1 < length nm" by simp
    ultimately have "\<not> stop_at (drop (Suc (?m - 1)) (nm @ '' ''))"
      using assms(3) by blast
    moreover from pos have "Suc (?m - 1) = ?m" by simp
    ultimately have stop: "\<not> stop_at (drop ?m nm @ '' '')"
      using m by simp
    from m have "drop ?m nm \<noteq> []" by simp
    from name_words_fail [OF this stop]
    have "matcher True ?words q (drop ?m nm @ ?s) (i + length xs) c accept = None" .
    with r show "matcher True ?words q r (i + length xs) c accept = None"
      by (simp add: add.commute)
  qed
  with d(1) show ?thesis
    by (cases ?d) (simp_all add: plus_def)
qed

lemma name_capture:
  assumes "nm \<noteq> []" and "\<not> is_space (last nm)"
    and "list_all (\<lambda>c. c \<noteq> newline \<and> c \<noteq> CHR '','' \<and> c \<noteq> CHR '';'') nm"
    and "\<forall>j<length nm. is_space (nm ! j) \<longrightarrow> \<not> stop_at (drop (Suc j) (nm @ '' ''))"
  shows "matcher True
           (Seq (Cap (lazy_plus (NCls [CC newline, CC CHR '','', CC CHR '';''])))
              (Seq (Ahead (Alt (Seq (plus Sp)
                                  (alts [lit ''symbol'', lit ''ticker'', Seq (lit ''x'') (A Sp),
                                         lit ''twitter'', lit ''website'', lit ''wallet'',
                                         lit ''image'', lit ''description'']))
                               Eos))
                 Empty))
           q (nm @ '' Symbol: '' @ rest) a None accept =
         Some (a + length nm, Some (a, a + length nm))"
proof -
  let ?stop = "Alt (Seq (plus Sp)
                      (alts [lit ''symbol'', lit ''ticker'', Seq (lit ''x'') (A Sp),
                             lit ''twitter'', lit ''website'', lit ''wallet'', lit ''image'',
                             lit ''description'']))
                   Eos"
  let ?part = "NCls [CC newline, CC CHR '','', CC CHR '';'']"
  let ?k = "\<lambda>p' s' i' c'. matcher True (Seq (Ahead ?stop) Empty) p' s' i' (Some (a, i')) accept"
  have yes: "matcher True ?stop p ('' Symbol: '' @ rest) j c accept = Some (j + 7, c)" for p j c
    by (simp add: plus_def matcher_word_ci startsWith_def toLowerCase_def char_eval accept_def
          below_def)
  have part: "list_all (atom_ok True ?part) nm"
    using assms(3) by (induction nm) (simp_all add: canonicalize_marks)
  have early: "?k (if j = 0 then q else Some (nm ! (j - 1)))
      (drop j nm @ '' Symbol: '' @ rest) (a + j) None = None" if "j < length nm" for j
    using name_stop_fails [OF that assms(2,4)] by simp
  have final: "?k (if nm = [] then q else Some (last nm)) ('' Symbol: '' @ rest)
      (a + length nm) None = Some (a + length nm, Some (a, a + length nm))"
    using yes by (simp add: accept_def)
  have lazy: "rep_lazy (atom_ok True ?part) 1 None 0 q (nm @ '' Symbol: '' @ rest) a None ?k =
      Some (a + length nm, Some (a, a + length nm))"
  proof (rule rep_lazy_first)
    show "list_all (atom_ok True ?part) nm" by (rule part)
    show "1 \<le> 0 + length nm" using assms(1) by (cases nm) simp_all
    show "(None :: nat option) = None" ..
    fix j assume "j < length nm"
    then show "?k (if j = 0 then q else Some (nm ! (j - 1)))
      (drop j nm @ '' Symbol: '' @ rest) (a + j) None = None"
      by (rule early)
  next
    show "?k (if nm = [] then q else Some (last nm)) ('' Symbol: '' @ rest)
      (a + length nm) None = Some (a + length nm, Some (a, a + length nm))"
      by (rule final)
  qed
  then show ?thesis
    by (simp only: lazy_plus_def matcher.simps if_False)
qed

lemma name_re1_match:
  assumes "nm \<noteq> []" and "hd nm \<noteq> CHR '':''" and "\<not> is_space (hd nm)"
    and "\<not> is_space (last nm)"
    and "list_all (\<lambda>c. c \<noteq> newline \<and> c \<noteq> CHR '','' \<and> c \<noteq> CHR '';'') nm"
    and "\<forall>j<length nm. is_space (nm ! j) \<longrightarrow> \<not> stop_at (drop (Suc j) (nm @ '' ''))"
    and "\<not> (case p of None \<Rightarrow> False | Some a \<Rightarrow> is_word a)"
  shows "matcher True name_re1 p (''Name: '' @ nm @ '' Symbol: '' @ rest) i None accept =
           Some (i + 6 + length nm, Some (i + 6, i + 6 + length nm))"
proof -
  have sep: "matcher True (plus colon_or_space) (Some CHR ''e'')
      ('': '' @ nm @ '' Symbol: '' @ rest) (i + 4) None
      (\<lambda>p' s' i' c'. matcher True
           (Seq (Cap (lazy_plus (NCls [CC newline, CC CHR '','', CC CHR '';''])))
              (Seq (Ahead (Alt (Seq (plus Sp)
                                  (alts [lit ''symbol'', lit ''ticker'', Seq (lit ''x'') (A Sp),
                                         lit ''twitter'', lit ''website'', lit ''wallet'',
                                         lit ''image'', lit ''description'']))
                               Eos))
                 Empty))
         p' s' i' c' accept) =
      Some (i + 4 + 2 + length nm, Some (i + 4 + 2, i + 4 + 2 + length nm))"
  proof (rule colon_space_run)
    show "nm @ '' Symbol: '' @ rest \<noteq> []" using assms(1) by simp
    show "hd (nm @ '' Symbol: '' @ rest) \<noteq> CHR '':''" using assms(1,2) by simp
    show "\<not> is_space (hd (nm @ '' Symbol: '' @ rest))" using assms(1,3) by simp
    show "matcher True
           (Seq (Cap (lazy_plus (NCls [CC newline, CC CHR '','', CC CHR '';''])))
              (Seq (Ahead (Alt (Seq (plus Sp)
                                  (alts [lit ''symbol'', lit ''ticker'', Seq (lit ''x'') (A Sp),
                                         lit ''twitter'', lit ''website'', lit ''wallet'',
                                         lit ''image'', lit ''description'']))
                               Eos))
                 Empty))
           (Some CHR '' '') (nm @ '' Symbol: '' @ rest) (i + 4 + 2) None accept =
         Some (i + 4 + 2 + length nm, Some (i + 4 + 2, i + 4 + 2 + length nm))"
      using assms(1,4,5,6) by (rule name_capture)
  qed
  have word: "matcher True (lit ''name'') p s i c k =
      (if startsWith (toLowerCase s) ''name'' then k (Some (s ! 3)) (drop 4 s) (i + 4) c
       else None)" for p s i c k
  proof -
    have "list_all (in_range CHR ''a'' CHR ''z'') ''name''"
      by (simp add: in_range_def cu_table)
    from matcher_word_ci [OF this, of p s i c k] show ?thesis
      by (simp add: eval_nat_numeral)
  qed
  have starts: "startsWith (toLowerCase (''Name: '' @ nm @ '' Symbol: '' @ rest)) ''name''"
    by (simp add: startsWith_def toLowerCase_def char_eval)
  have "matcher True name_re1 p (''Name: '' @ nm @ '' Symbol: '' @ rest) i None accept =
      Some (i + 4 + 2 + length nm, Some (i + 4 + 2, i + 4 + 2 + length nm))"
    using assms(7) starts sep
    by (simp add: name_re1_def seqs_def word at_boundary_def is_word_table
          split: option.splits)
  then show ?thesis by simp
qed
text \<open>
  The symbol pattern at \<open>Symbol: S Wallet:\<close> takes the letters of \<open>S\<close>, and the
  wallet pattern at \<open>0x\<close>\<open>H\<close> takes the 42 code units of the address.
\<close>

lemma letter_class: "is_letter c \<Longrightarrow> atom_ok True (Cls letters) c"
  by (auto simp add: is_letter_def letters_def in_range_def between_def)

lemma letter_not_mark: "is_letter c \<Longrightarrow> c \<noteq> CHR '':'' \<and> \<not> is_space c \<and> c \<noteq> CHR ''0''"
  by (auto simp add: is_letter_def in_range_def is_space_def cu_table)

lemma symbol_re1_match:
  assumes "2 \<le> length sb" and "length sb \<le> 10" and "list_all is_letter sb"
    and "\<not> (case p of None \<Rightarrow> False | Some a \<Rightarrow> is_word a)"
  shows "matcher True symbol_re1 p (''Symbol: '' @ sb @ '' Wallet: 0x'' @ rest) i None accept =
           Some (i + 8 + length sb, Some (i + 8, i + 8 + length sb))"
proof -
  have word: "matcher True (lit ''symbol'') p s i c k =
      (if startsWith (toLowerCase s) ''symbol'' then k (Some (s ! 5)) (drop 6 s) (i + 6) c
       else None)" for p s i c k
  proof -
    have "list_all (in_range CHR ''a'' CHR ''z'') ''symbol''"
      by (simp add: in_range_def cu_table)
    from matcher_word_ci [OF this, of p s i c k] show ?thesis
      by (simp add: eval_nat_numeral)
  qed
  have ne: "sb \<noteq> []" using assms(1) by auto
  have first: "is_letter (hd sb)"
    using assms(3) ne by (cases sb) simp_all
  have letters: "list_all (atom_ok True (Cls letters)) sb"
    using assms(3) by (induction sb) (simp_all add: letter_class del: atom_ok.simps)
  have group: "rep_greedy (atom_ok True (Cls letters)) 2 (Some 10) 0 (Some CHR '' '')
      (sb @ '' Wallet: 0x'' @ rest) a c
      (\<lambda>p' s' i' c'. accept p' s' i' (Some (a, i'))) = Some (a + length sb, Some (a, a + length sb))"
    for a c
  proof (rule rep_greedy_run)
    show "list_all (atom_ok True (Cls letters)) sb" by (rule letters)
    show "'' Wallet: 0x'' @ rest = [] \<or>
        \<not> atom_ok True (Cls letters) (hd ('' Wallet: 0x'' @ rest))"
      by (simp add: letters_def char_eval)
    show "2 \<le> 0 + length sb" using assms(1) by simp
    show "\<forall>h. Some 10 = Some h \<longrightarrow> 0 + length sb \<le> h" using assms(2) by simp
    show "accept (if sb = [] then Some CHR '' '' else Some (last sb)) ('' Wallet: 0x'' @ rest)
        (a + length sb) (Some (a, a + length sb)) =
        Some (a + length sb, Some (a, a + length sb))"
      by (simp add: accept_def)
  qed
  have sep: "matcher True (plus colon_or_space) (Some CHR ''l'')
      ('': '' @ sb @ '' Wallet: 0x'' @ rest) (i + 6) None
      (\<lambda>p' s' i' c'. matcher True (Seq (Cap (Rep True 2 (Some 10) (Cls letters))) Empty)
         p' s' i' c' accept) =
      Some (i + 6 + 2 + length sb, Some (i + 6 + 2, i + 6 + 2 + length sb))"
  proof (rule colon_space_run)
    show "sb @ '' Wallet: 0x'' @ rest \<noteq> []" using ne by simp
    show "hd (sb @ '' Wallet: 0x'' @ rest) \<noteq> CHR '':''"
      using ne first by (simp add: letter_not_mark)
    show "\<not> is_space (hd (sb @ '' Wallet: 0x'' @ rest))"
      using ne first by (simp add: letter_not_mark)
    show "matcher True (Seq (Cap (Rep True 2 (Some 10) (Cls letters))) Empty) (Some CHR '' '')
        (sb @ '' Wallet: 0x'' @ rest) (i + 6 + 2) None accept =
        Some (i + 6 + 2 + length sb, Some (i + 6 + 2, i + 6 + 2 + length sb))"
      using group [of "i + 6 + 2" None] by (simp only: matcher.simps if_True)
  qed
  have starts: "startsWith (toLowerCase (''Symbol: '' @ sb @ '' Wallet: 0x'' @ rest)) ''symbol''"
    by (simp add: startsWith_def toLowerCase_def char_eval)
  have "matcher True symbol_re1 p (''Symbol: '' @ sb @ '' Wallet: 0x'' @ rest) i None accept =
      Some (i + 6 + 2 + length sb, Some (i + 6 + 2, i + 6 + 2 + length sb))"
    using assms(4) starts sep
    by (simp add: symbol_re1_def seqs_def word at_boundary_def is_word_table
          split: option.splits)
  then show ?thesis by simp
qed

lemma hex_atom_ok: "is_hex c \<Longrightarrow> atom_ok False (Cls hex_digits) c"
  by (auto simp add: is_hex_def hex_digits_def in_range_def between_def)

lemma hex_is_word: "is_hex c \<Longrightarrow> is_word c"
  by (auto simp add: is_hex_def is_word_def in_range_def cu_table)

lemma wallet_re_match:
  assumes "length h = 40" and "list_all is_hex h"
    and "post = [] \<or> \<not> is_word (hd post)"
    and "\<not> (case p of None \<Rightarrow> False | Some a \<Rightarrow> is_word a)"
  shows "matcher False wallet_re p (''0x'' @ h @ post) i None accept =
           Some (i + 42, Some (i, i + 42))"
proof -
  have word: "matcher False (lit ''0x'') p s i c k =
      (if startsWith s ''0x'' then k (Some (s ! 1)) (drop 2 s) (i + 2) c else None)"
    for p s i c k
    using matcher_word_cs [of "''0x''" p s i c k] by (simp add: eval_nat_numeral)
  have all: "list_all (atom_ok False (Cls hex_digits)) h"
    using assms(2) by (induction h) (simp_all add: hex_atom_ok del: atom_ok.simps)
  have ne: "h \<noteq> []" using assms(1) by auto
  have rep: "rep_greedy (atom_ok False (Cls hex_digits)) 40 (Some 40) 0 q (h @ post) j c k =
      k (Some (last h)) post (j + 40) c" for q j c k
    using rep_greedy_exact [OF all, of 0 40 q post j c k] assms(1) ne by simp
  have w: "is_word (last h)"
    using assms(2) ne by (simp add: list_all_iff hex_is_word)
  have after: "at_boundary (Some (last h)) post"
    using assms(3) w by (cases post) (simp_all add: at_boundary_def)
  show ?thesis
    using assms(4) after
    by (simp add: wallet_re_def seqs_def word rep startsWith_def at_boundary_def is_word_table
          accept_def split: option.splits)
qed
text \<open>
  The result of \<open>match\<close> on a text \<open>a @ s\<close> when the pattern matches nowhere in \<open>a\<close>
  and matches at \<open>s\<close>.
\<close>

lemma search_here:
  "matcher ic r p s i None accept = Some (j, c) \<Longrightarrow> search ic r p s i = Some (i, j, c)"
  by (cases s) simp_all

lemma js_match_at:
  assumes "\<And>j. j < length a \<Longrightarrow>
             matcher ic r (if j = 0 then None else Some (a ! (j - 1))) (drop j a @ s) j None
               accept = None"
    and "matcher ic r (if a = [] then None else Some (last a)) s (length a) None accept =
           Some (j, Some (b, e))"
    and "length a \<le> b"
  shows "js_match ic r (a @ s) =
           Some \<lparr> whole = take (j - length a) s,
                  group1 = Some (take (e - b) (drop (b - length a) s)) \<rparr>"
proof -
  have "search ic r None (a @ s) 0 =
      search ic r (if a = [] then None else Some (last a)) s (0 + length a)"
    using assms(1) by (intro search_skip) simp
  also have "\<dots> = Some (length a, j, Some (b, e))"
    using assms(2) by (simp add: search_here)
  finally show ?thesis
    using assms(3) by (simp add: js_match_def slice_def)
qed

lemma nowhere_append:
  assumes "\<And>j. j < length a \<Longrightarrow> \<not> Q (drop j a @ m @ s)"
    and "\<And>j. j < length m \<Longrightarrow> \<not> Q (drop j m @ s)"
    and "j < length (a @ m)"
  shows "\<not> Q (drop j (a @ m) @ s)"
proof (cases "j < length a")
  case True
  with assms(1) [of j] show ?thesis by simp
next
  case False
  with assms(2) [of "j - length a"] assms(3) show ?thesis by simp
qed

lemma no_first:
  assumes "list_all (\<lambda>c. c \<noteq> x) a" and "j < length a"
  shows "\<not> startsWith (drop j a @ b) (x # w)"
proof -
  from assms(2) have "drop j a = a ! j # drop (Suc j) a"
    by (simp add: Cons_nth_drop_Suc)
  moreover from assms have "a ! j \<noteq> x"
    by (simp add: list_all_length)
  ultimately show ?thesis
    by (auto simp add: startsWith_def)
qed

lemma trim_id:
  assumes "s \<noteq> []" and "\<not> is_space (hd s)" and "\<not> is_space (last s)"
  shows "trim s = s"
proof -
  have "dropWhile is_space s = s"
    using assms(1,2) by (cases s) simp_all
  moreover have "dropWhile is_space (rev s) = rev s"
    using assms(1,3) by (cases "rev s") (simp_all add: last_rev [symmetric] hd_rev)
  ultimately show ?thesis
    by (simp add: trim_def)
qed

lemma replace_spaces_id: "list_all (\<lambda>c. \<not> is_space c) s \<Longrightarrow> replace_spaces s = s"
  by (induction s) simp_all

lemma parse_name_explicit:
  assumes "pre = [] \<or> \<not> is_word (last pre)"
    and "\<not> includes_str (toLowerCase pre) ''name''"
    and "nm \<noteq> []" and "hd nm \<noteq> CHR '':''" and "\<not> is_space (hd nm)"
    and "\<not> is_space (last nm)"
    and "list_all (\<lambda>c. c \<noteq> newline \<and> c \<noteq> CHR '','' \<and> c \<noteq> CHR '';'') nm"
    and "\<forall>j<length nm. is_space (nm ! j) \<longrightarrow> \<not> stop_at (drop (Suc j) (nm @ '' ''))"
  shows "parse_name (pre @ ''Name: '' @ nm @ '' Symbol: '' @ rest) = Some (replace_spaces nm)"
proof -
  let ?s = "''Name: '' @ nm @ '' Symbol: '' @ rest"
  have none: "matcher True name_re1 (if j = 0 then None else Some (pre ! (j - 1)))
      (drop j pre @ ?s) j None accept = None" if "j < length pre" for j
  proof (rule name_re1_start, rule no_start_ci)
    show "\<not> includes_str (toLowerCase pre) ''name''" by (rule assms(2))
    show "?s \<noteq> []" by simp
    show "hd (toLowerCase ?s) \<notin> set (tl ''name'')"
      by (simp add: toLowerCase_def char_eval)
    show "j < length pre" by (rule that)
  qed
  have here: "matcher True name_re1 (if pre = [] then None else Some (last pre)) ?s (length pre)
      None accept =
      Some (length pre + 6 + length nm, Some (length pre + 6, length pre + 6 + length nm))"
    using assms(3,4,5,6,7,8) by (rule name_re1_match) (use assms(1) in auto)
  have "js_match True name_re1 (pre @ ?s) =
      Some \<lparr> whole = take (length pre + 6 + length nm - length pre) ?s,
             group1 = Some (take (length pre + 6 + length nm - (length pre + 6))
                              (drop (length pre + 6 - length pre) ?s)) \<rparr>"
    using none here by (rule js_match_at) simp_all
  then have found: "group_text (the (js_match True name_re1 (pre @ ?s))) = nm"
    "js_match True name_re1 (pre @ ?s) \<noteq> None"
    by (simp_all add: group_text_def)
  from assms(3,5,6) have "trim nm = nm"
    by (rule trim_id)
  with found show ?thesis
    by (auto simp add: parse_name_def or_match_def simp del: append.simps)
qed

lemma parse_symbol_explicit:
  assumes "\<not> includes_str (toLowerCase a) ''symbol''"
    and "\<not> includes_str (toLowerCase a) ''ticker''"
    and "2 \<le> length sb" and "length sb \<le> 10" and "list_all is_letter sb"
  shows "parse_symbol (a @ '' Symbol: '' @ sb @ '' Wallet: 0x'' @ rest) = Some (toUpperCase sb)"
proof -
  let ?s = "''Symbol: '' @ sb @ '' Wallet: 0x'' @ rest"
  let ?Q = "\<lambda>s. startsWith (toLowerCase s) ''symbol'' \<or> startsWith (toLowerCase s) ''ticker''"
  have inside: "\<not> ?Q (drop j a @ '' '' @ ?s)" if "j < length a" for j
    using no_start_ci [OF assms(1) _ _ that, of "'' '' @ ?s"]
      no_start_ci [OF assms(2) _ _ that, of "'' '' @ ?s"]
    by (simp add: toLowerCase_def char_eval)
  have blank: "\<not> ?Q (drop j '' '' @ ?s)" if "j < length '' ''" for j
    using that by (simp add: toLowerCase_def startsWith_def char_eval)
  have "\<not> ?Q (drop j (a @ '' '') @ ?s)" if "j < length (a @ '' '')" for j
    using inside blank that by (rule nowhere_append)
  then have none: "matcher True symbol_re1 (if j = 0 then None else Some ((a @ '' '') ! (j - 1)))
      (drop j (a @ '' '') @ ?s) j None accept = None" if "j < length (a @ '' '')" for j
    using that by (intro symbol_re1_start) auto
  have here: "matcher True symbol_re1 (if a @ '' '' = [] then None else Some (last (a @ '' '')))
      ?s (length (a @ '' '')) None accept =
      Some (length (a @ '' '') + 8 + length sb,
            Some (length (a @ '' '') + 8, length (a @ '' '') + 8 + length sb))"
    using assms(3,4,5) by (rule symbol_re1_match) (simp add: is_word_table)
  have "js_match True symbol_re1 ((a @ '' '') @ ?s) =
      Some \<lparr> whole = take (length (a @ '' '') + 8 + length sb - length (a @ '' '')) ?s,
             group1 = Some (take (length (a @ '' '') + 8 + length sb - (length (a @ '' '') + 8))
                              (drop (length (a @ '' '') + 8 - length (a @ '' '')) ?s)) \<rparr>"
    using none here by (rule js_match_at) simp_all
  then have found: "group_text (the (js_match True symbol_re1 ((a @ '' '') @ ?s))) = sb"
    "js_match True symbol_re1 ((a @ '' '') @ ?s) \<noteq> None"
    by (simp_all add: group_text_def)
  have shape: "a @ '' Symbol: '' @ sb @ '' Wallet: 0x'' @ rest = (a @ '' '') @ ?s"
    by simp
  have ne: "sb \<noteq> []" using assms(3) by auto
  have "list_all (\<lambda>c. \<not> is_space c) sb"
    using assms(5) by (induction sb) (simp_all add: letter_not_mark)
  then have "\<not> is_space (hd sb)" "\<not> is_space (last sb)"
    using ne by (simp_all add: list_all_iff)
  with ne have "trim sb = sb"
    by (simp add: trim_id)
  with found show ?thesis
    unfolding shape by (auto simp add: parse_symbol_def or_match_def simp del: append.simps append_assoc)
qed

lemma parse_wallet_explicit:
  assumes "\<not> includes_str a ''0x''"
    and "list_all is_letter sb"
    and "length h = 40" and "list_all is_hex h"
    and "post = [] \<or> \<not> is_word (hd post)"
  shows "parse_wallet (a @ '' Symbol: '' @ sb @ '' Wallet: 0x'' @ h @ post) = Some (''0x'' @ h)"
proof -
  let ?m = "'' Symbol: '' @ sb @ '' Wallet: ''"
  let ?s = "''0x'' @ h @ post"
  let ?Q = "\<lambda>s. startsWith s ''0x''"
  have inside: "\<not> ?Q (drop j a @ ?m @ ?s)" if "j < length a" for j
    using assms(1) _ _ that by (rule no_start) simp_all
  have digit: "list_all (\<lambda>c. c \<noteq> CHR ''0'') ?m"
    using assms(2) by (induction sb) (simp_all add: letter_not_mark)
  have middle: "\<not> ?Q (drop j ?m @ ?s)" if "j < length ?m" for j
    using digit that by (rule no_first)
  have "\<not> ?Q (drop j (a @ ?m) @ ?s)" if "j < length (a @ ?m)" for j
    using inside middle that by (rule nowhere_append)
  then have none: "matcher False wallet_re (if j = 0 then None else Some ((a @ ?m) ! (j - 1)))
      (drop j (a @ ?m) @ ?s) j None accept = None" if "j < length (a @ ?m)" for j
    using that by (intro wallet_re_start) auto
  have here: "matcher False wallet_re (if a @ ?m = [] then None else Some (last (a @ ?m)))
      ?s (length (a @ ?m)) None accept =
      Some (length (a @ ?m) + 42, Some (length (a @ ?m), length (a @ ?m) + 42))"
    using assms(3,4,5) by (rule wallet_re_match) (simp add: is_word_table)
  have "js_match False wallet_re ((a @ ?m) @ ?s) =
      Some \<lparr> whole = take (length (a @ ?m) + 42 - length (a @ ?m)) ?s,
             group1 = Some (take (length (a @ ?m) + 42 - length (a @ ?m))
                              (drop (length (a @ ?m) - length (a @ ?m)) ?s)) \<rparr>"
    using none here by (rule js_match_at) simp_all
  then have found: "group_text (the (js_match False wallet_re ((a @ ?m) @ ?s))) = ''0x'' @ h"
    "js_match False wallet_re ((a @ ?m) @ ?s) \<noteq> None"
    using assms(3) by (simp_all add: group_text_def)
  have shape: "a @ '' Symbol: '' @ sb @ '' Wallet: 0x'' @ h @ post = (a @ ?m) @ ?s"
    by simp
  from found show ?thesis
    unfolding shape by (auto simp add: parse_wallet_def simp del: append.simps append_assoc)
qed

lemma toUpperCase_id: "list_all (in_range CHR ''A'' CHR ''Z'') s \<Longrightarrow> toUpperCase s = s"
proof (induction s)
  case Nil
  show ?case by (simp add: toUpperCase_def)
next
  case (Cons c s)
  then have c: "in_range CHR ''A'' CHR ''Z'' c" and s: "toUpperCase s = s"
    by simp_all
  from c have "cu c \<noteq> 223" "upper_char c = c"
    by (auto simp add: in_range_def cu_table upper_char_def upper_code_def is_lower_def
          char_of_cu)
  with s show ?case
    by (simp add: toUpperCase_def)
qed

subsection \<open>The explicit pattern\<close>

text \<open>
  Claim C2, as the code has it.  Let a text hold the pattern \<open>Name: N Symbol: S
  Wallet: 0x\<close>\<open>H\<close>, between a text \<open>pre\<close> before it and a text \<open>post\<close> after it,
  and let it contain one of the keywords \<open>deploy\<close>, \<open>launch\<close> and
  \<open>create token\<close>, in any case and anywhere.  Let the name \<open>N\<close> be a text that is
  not empty, has no line feed, comma or semicolon, begins with neither a colon nor white
  space, does not end with white space, and in which no stop word begins after white
  space.  Let \<open>S\<close> be a run of two to ten letters and \<open>H\<close> a run of 40 hexadecimal
  digits.  Let the pattern begin and the address end at a word boundary; let \<open>name\<close>
  (in any case) not occur in \<open>pre\<close>; and let neither \<open>symbol\<close> nor \<open>ticker\<close>
  (in any case) nor \<open>0x\<close> occur in the text before the \<open>Symbol\<close> of the pattern.
  Then \<open>parseDeployMessage\<close> returns parameters whose name is \<open>N\<close> with every run
  of white space replaced by one space (\<open>N\<close> itself when it has no white space), whose
  symbol is \<open>S\<close> in upper case (\<open>S\<close> itself when it is written in upper case) and
  whose wallet is \<open>0x\<close>\<open>H\<close>.
\<close>

theorem parseDeployMessage_explicit_pattern:
  assumes "text = pre @ ''Name: '' @ nm @ '' Symbol: '' @ sb @ '' Wallet: 0x'' @ h @ post"
    and "includes_str (toLowerCase text) ''deploy'' \<or> includes_str (toLowerCase text) ''launch'' \<or>
         includes_str (toLowerCase text) ''create token''"
    and "pre = [] \<or> \<not> is_word (last pre)"
    and "\<not> includes_str (toLowerCase pre) ''name''"
    and "\<not> includes_str (toLowerCase (pre @ ''Name: '' @ nm)) ''symbol''"
    and "\<not> includes_str (toLowerCase (pre @ ''Name: '' @ nm)) ''ticker''"
    and "\<not> includes_str (pre @ ''Name: '' @ nm) ''0x''"
    and "nm \<noteq> []" and "hd nm \<noteq> CHR '':''" and "\<not> is_space (hd nm)"
    and "\<not> is_space (last nm)"
    and "list_all (\<lambda>c. c \<noteq> newline \<and> c \<noteq> CHR '','' \<and> c \<noteq> CHR '';'') nm"
    and "\<forall>j<length nm. is_space (nm ! j) \<longrightarrow> \<not> stop_at (drop (Suc j) (nm @ '' ''))"
    and "2 \<le> length sb" and "length sb \<le> 10" and "list_all is_letter sb"
    and "length h = 40" and "list_all is_hex h"
    and "post = [] \<or> \<not> is_word (hd post)"
  shows "\<exists>p. parseDeployMessage text = Some p \<and>
           name p = Some (replace_spaces nm) \<and>
           (list_all (\<lambda>c. \<not> is_space c) nm \<longrightarrow> name p = Some nm) \<and>
           symbol p = Some (toUpperCase sb) \<and>
           (list_all (in_range CHR ''A'' CHR ''Z'') sb \<longrightarrow> symbol p = Some sb) \<and>
           wallet p = Some (''0x'' @ h)"
proof -
  have shape: "text = (pre @ ''Name: '' @ nm) @ '' Symbol: '' @ sb @ '' Wallet: 0x'' @ h @ post"
    using assms(1) by simp
  have n: "parse_name text = Some (replace_spaces nm)"
    unfolding assms(1) using assms(3,4,8,9,10,11,12,13) by (rule parse_name_explicit)
  have s: "parse_symbol text = Some (toUpperCase sb)"
    unfolding shape using assms(5,6,14,15,16) by (rule parse_symbol_explicit)
  have w: "parse_wallet text = Some (''0x'' @ h)"
    unfolding shape using assms(7,16,17,18,19) by (rule parse_wallet_explicit)
  have "replace_spaces nm \<noteq> []"
    using assms(8) by (cases nm) simp_all
  with assms(2) show ?thesis
    by (auto simp add: parseDeployMessage_def Let_def n s w truthy_str_def toUpperCase_id
          replace_spaces_id simp del: append.simps)
qed

lemma ones_hex: "list_all is_hex ''1111111111111111111111111111111111111111''"
  by (simp add: is_hex_def in_range_def cu_table)

lemma mixed_hex: "list_all is_hex ''00000000000000000000000000000000DeaDBeef''"
  by (simp add: is_hex_def in_range_def cu_table)

theorem parseDeployMessage_explicit_pattern_witness:
  "(\<exists>p. parseDeployMessage
           ''Deploy token Name: Foo Symbol: FOO Wallet: 0x1111111111111111111111111111111111111111'' =
         Some p \<and>
        name p = Some ''Foo'' \<and> symbol p = Some ''FOO'' \<and>
        wallet p = Some ''0x1111111111111111111111111111111111111111'') \<and>
   (\<exists>p. parseDeployMessage
           ''please launch: Name: Big  Coin Symbol: bar Wallet: 0x00000000000000000000000000000000DeaDBeef, thanks'' =
         Some p \<and>
        name p = Some ''Big Coin'' \<and> symbol p = Some ''BAR'' \<and>
        wallet p = Some ''0x00000000000000000000000000000000DeaDBeef'')"
proof -
  have first: "\<exists>p. parseDeployMessage
           ''Deploy token Name: Foo Symbol: FOO Wallet: 0x1111111111111111111111111111111111111111'' =
         Some p \<and>
        name p = Some ''Foo'' \<and> symbol p = Some ''FOO'' \<and>
        wallet p = Some ''0x1111111111111111111111111111111111111111''"
    using parseDeployMessage_explicit_pattern
      [of "''Deploy token Name: Foo Symbol: FOO Wallet: 0x1111111111111111111111111111111111111111''"
        "''Deploy token ''" "''Foo''" "''FOO''" "''1111111111111111111111111111111111111111''" "''''"]
      ones_hex
    by (simp add: toLowerCase_def toUpperCase_def startsWith_def char_eval is_letter_def
          newline_def All_less_Suc)
  have second: "\<exists>p. parseDeployMessage
           ''please launch: Name: Big  Coin Symbol: bar Wallet: 0x00000000000000000000000000000000DeaDBeef, thanks'' =
         Some p \<and>
        name p = Some ''Big Coin'' \<and> symbol p = Some ''BAR'' \<and>
        wallet p = Some ''0x00000000000000000000000000000000DeaDBeef''"
    using parseDeployMessage_explicit_pattern
      [of "''please launch: Name: Big  Coin Symbol: bar Wallet: 0x00000000000000000000000000000000DeaDBeef, thanks''"
        "''please launch: ''" "''Big  Coin''" "''bar''" "''00000000000000000000000000000000DeaDBeef''"
        "'', thanks''"]
      mixed_hex
    by (simp add: toLowerCase_def toUpperCase_def startsWith_def char_eval is_letter_def
          newline_def All_less_Suc stop_at_def stop_words_def)
  from first second show ?thesis ..
qed

text \<open>
  The claim as the specification words it speaks of any text that contains the pattern.
  The pattern alone, without one of the keywords, gives \<open>null\<close>.  With a keyword, what
  stands before the pattern can take the place of each field: the name begins at the
  first \<open>name:\<close>, the symbol is taken at the first \<open>symbol\<close> or \<open>ticker\<close>, the
  wallet is the first address of the text.  And a name of several words ends before the
  first stop word in it: of \<open>Big Image Coin\<close> the parser keeps \<open>Big\<close>.
\<close>

lemma pattern_alone_no_keyword:
  "\<not> includes_str
       (toLowerCase ''Name: Foo Symbol: BAR Wallet: 0x1111111111111111111111111111111111111111'')
       ''deploy''"
  "\<not> includes_str
       (toLowerCase ''Name: Foo Symbol: BAR Wallet: 0x1111111111111111111111111111111111111111'')
       ''launch''"
  "\<not> includes_str
       (toLowerCase ''Name: Foo Symbol: BAR Wallet: 0x1111111111111111111111111111111111111111'')
       ''create token''"
  by (simp_all add: toLowerCase_def char_eval startsWith_def)

lemma pattern_after_name:
  "includes_str
     (toLowerCase
        ''deploy name: x Name: Foo Symbol: BAR Wallet: 0x1111111111111111111111111111111111111111'')
     ''deploy''"
  "parse_name
     ''deploy name: x Name: Foo Symbol: BAR Wallet: 0x1111111111111111111111111111111111111111'' =
   Some ''x Name: Foo''"
  by (simp_all add: parse_name_def name_re1_def pattern_defs match_eval char_eval toLowerCase_def)

lemma pattern_after_ticker:
  "includes_str
     (toLowerCase
        ''deploy ticker: ab Name: Foo Symbol: BAR Wallet: 0x1111111111111111111111111111111111111111'')
     ''deploy''"
  "parse_symbol
     ''deploy ticker: ab Name: Foo Symbol: BAR Wallet: 0x1111111111111111111111111111111111111111'' =
   Some ''AB''"
  by (simp_all add: parse_symbol_def symbol_re1_def pattern_defs match_eval char_eval
        toLowerCase_def toUpperCase_def)

lemma pattern_after_address:
  "includes_str
     (toLowerCase
        ''deploy 0x2222222222222222222222222222222222222222 Name: Foo Symbol: BAR Wallet: 0x1111111111111111111111111111111111111111'')
     ''deploy''"
  "parse_symbol
     ''deploy 0x2222222222222222222222222222222222222222 Name: Foo Symbol: BAR Wallet: 0x1111111111111111111111111111111111111111'' =
   Some ''BAR''"
  "parse_wallet
     ''deploy 0x2222222222222222222222222222222222222222 Name: Foo Symbol: BAR Wallet: 0x1111111111111111111111111111111111111111'' =
   Some ''0x2222222222222222222222222222222222222222''"
  by (simp_all add: parse_symbol_def symbol_re1_def parse_wallet_def wallet_re_def hex_digits_def
        pattern_defs match_eval char_eval toLowerCase_def toUpperCase_def)

lemma pattern_long_name:
  "includes_str
     (toLowerCase
        ''Deploy token Name: Big Image Coin Symbol: BAR Wallet: 0x1111111111111111111111111111111111111111'')
     ''deploy''"
  "parse_name
     ''Deploy token Name: Big Image Coin Symbol: BAR Wallet: 0x1111111111111111111111111111111111111111'' =
   Some ''Big''"
  by (simp_all add: parse_name_def name_re1_def pattern_defs match_eval char_eval toLowerCase_def)

theorem parseDeployMessage_pattern_counterexample:
  "parseDeployMessage
     ''Name: Foo Symbol: BAR Wallet: 0x1111111111111111111111111111111111111111'' = None \<and>
   (\<exists>p. parseDeployMessage
           ''deploy name: x Name: Foo Symbol: BAR Wallet: 0x1111111111111111111111111111111111111111'' =
         Some p \<and>
        name p = Some ''x Name: Foo'') \<and>
   (\<exists>p. parseDeployMessage
           ''deploy ticker: ab Name: Foo Symbol: BAR Wallet: 0x1111111111111111111111111111111111111111'' =
         Some p \<and>
        symbol p = Some ''AB'') \<and>
   (\<exists>p. parseDeployMessage
           ''deploy 0x2222222222222222222222222222222222222222 Name: Foo Symbol: BAR Wallet: 0x1111111111111111111111111111111111111111'' =
         Some p \<and>
        wallet p = Some ''0x2222222222222222222222222222222222222222'') \<and>
   (\<exists>p. parseDeployMessage
           ''Deploy token Name: Big Image Coin Symbol: BAR Wallet: 0x1111111111111111111111111111111111111111'' =
         Some p \<and>
        name p = Some ''Big'')"
proof -
  have "parseDeployMessage
      ''Name: Foo Symbol: BAR Wallet: 0x1111111111111111111111111111111111111111'' = None"
    by (simp add: parseDeployMessage_def Let_def pattern_alone_no_keyword)
  moreover have "\<exists>p. parseDeployMessage
           ''deploy name: x Name: Foo Symbol: BAR Wallet: 0x1111111111111111111111111111111111111111'' =
         Some p \<and>
        name p = Some ''x Name: Foo''"
    by (simp add: parseDeployMessage_def Let_def pattern_after_name truthy_str_def)
  moreover have "\<exists>p. parseDeployMessage
           ''deploy ticker: ab Name: Foo Symbol: BAR Wallet: 0x1111111111111111111111111111111111111111'' =
         Some p \<and>
        symbol p = Some ''AB''"
    by (simp add: parseDeployMessage_def Let_def pattern_after_ticker truthy_str_def)
  moreover have "\<exists>p. parseDeployMessage
           ''deploy 0x2222222222222222222222222222222222222222 Name: Foo Symbol: BAR Wallet: 0x1111111111111111111111111111111111111111'' =
         Some p \<and>
        wallet p = Some ''0x2222222222222222222222222222222222222222''"
    by (simp add: parseDeployMessage_def Let_def pattern_after_address truthy_str_def)
  moreover have "\<exists>p. parseDeployMessage
           ''Deploy token Name: Big Image Coin Symbol: BAR Wallet: 0x1111111111111111111111111111111111111111'' =
         Some p \<and>
        name p = Some ''Big''"
    by (simp add: parseDeployMessage_def Let_def pattern_long_name truthy_str_def)
  ultimately show ?thesis by simp
qed

subsection \<open>The wallet taken from a message\<close>






section \<open>Properties of the deployment dispatch\<close>

lemma truthy_str_Some: "truthy_str (Some s) = (s \<noteq> [])"
  by (simp add: truthy_str_def)

lemma truthy_str_None: "truthy_str None = False"
  by (simp add: truthy_str_def)


lemma deploy_calls_simps:
  "deploy_calls [] = []"
  "deploy_calls (CallDeploy r # cs) = r # deploy_calls cs"
  "deploy_calls (CallWaitForTransaction # cs) = deploy_calls cs"
  by (simp_all add: deploy_calls_def)

lemma recipients_build_request:
  "recipients (build_request env params) =
     [\<lparr> admin = the (wallet params), recipient = the (wallet params), bps = 9000, token = Both \<rparr>,
      \<lparr> admin = AGENT_WALLET_ADDRESS env, recipient = AGENT_WALLET_ADDRESS env, bps = 1000,
         token = Both \<rparr>]"
  by (simp add: build_request_def Let_def)

text \<open>
  Claim C5.  With the signing key configured and name, symbol and wallet all there,
  \<open>deployTokenViaSDK\<close> calls the SDK's deploy once, with a list of exactly two
  reward recipients: 9000 basis points to the supplied wallet and 1000 to the agent
  wallet of the platform, which is the address of the signing account.  When the SDK
  returns a transaction hash, the result is success with that hash, the wait for the
  confirmation has been started, and the result is the same whatever the outcome of
  the wait.
\<close>

theorem deploy_fee_split:
  assumes "getViemClients env = Some cl"
    and "name params = Some n" and "n \<noteq> []"
    and "symbol params = Some s" and "s \<noteq> []"
    and "wallet params = Some w" and "w \<noteq> []"
  shows "\<exists>req. deploy_calls (snd (deployTokenViaSDK env sdk params)) = [req] \<and>
           recipients req =
             [\<lparr> admin = w, recipient = w, bps = 9000, token = Both \<rparr>,
              \<lparr> admin = AGENT_WALLET_ADDRESS env, recipient = AGENT_WALLET_ADDRESS env,
                 bps = 1000, token = Both \<rparr>] \<and>
           cl = Clients (AGENT_WALLET_ADDRESS env) \<and>
           (\<forall>tx outcome. sdk req = SdkOk tx outcome \<longrightarrow>
              deployTokenViaSDK env sdk params =
                (\<lparr> success = True, txHash = Some tx, error = None \<rparr>,
                 [CallDeploy req, CallWaitForTransaction]))"
proof -
  let ?req = "build_request env params"
  have complete: "truthy_str (name params)" "truthy_str (symbol params)"
    "truthy_str (wallet params)"
    using assms by (simp_all add: truthy_str_def)
  have calls: "deploy_calls (snd (deployTokenViaSDK env sdk params)) = [?req]"
    using assms(1) complete
    by (cases "sdk ?req") (simp_all add: deployTokenViaSDK_def Let_def deploy_calls_simps)
  have split: "recipients ?req =
      [\<lparr> admin = w, recipient = w, bps = 9000, token = Both \<rparr>,
       \<lparr> admin = AGENT_WALLET_ADDRESS env, recipient = AGENT_WALLET_ADDRESS env,
          bps = 1000, token = Both \<rparr>]"
    using assms(6) by (simp add: recipients_build_request)
  have ok: "deployTokenViaSDK env sdk params =
      (\<lparr> success = True, txHash = Some tx, error = None \<rparr>,
       [CallDeploy ?req, CallWaitForTransaction])"
    if "sdk ?req = SdkOk tx outcome" for tx outcome
    using assms(1) complete that by (simp add: deployTokenViaSDK_def Let_def)
  have agent: "cl = Clients (AGENT_WALLET_ADDRESS env)"
    using assms(1)
    by (auto simp add: getViemClients_def AGENT_WALLET_ADDRESS_def split: if_splits option.splits)
  from calls split agent ok show ?thesis by blast
qed

theorem deploy_fee_split_witness:
  "getViemClients example_env = Some (Clients ''0x9999999999999999999999999999999999999999'') \<and>
   name example_params = Some ''Foo'' \<and> ''Foo'' \<noteq> [] \<and>
   symbol example_params = Some ''FOO'' \<and> ''FOO'' \<noteq> [] \<and>
   wallet example_params = Some ''0x1111111111111111111111111111111111111111'' \<and>
   ''0x1111111111111111111111111111111111111111'' \<noteq> [] \<and>
   (\<exists>req. deploy_calls (snd (deployTokenViaSDK example_env example_sdk example_params)) = [req] \<and>
      map bps (recipients req) = [9000, 1000] \<and>
      map recipient (recipients req) =
        [''0x1111111111111111111111111111111111111111'',
         ''0x9999999999999999999999999999999999999999''] \<and>
      example_sdk req = SdkOk ''0xabc'' Rejected \<and>
      fst (deployTokenViaSDK example_env example_sdk example_params) =
        \<lparr> success = True, txHash = Some ''0xabc'', error = None \<rparr>)"
proof -
  have cl: "getViemClients example_env =
      Some (Clients ''0x9999999999999999999999999999999999999999'')"
    by (simp add: getViemClients_def example_env_def truthy_str_def)
  have agent: "AGENT_WALLET_ADDRESS example_env = ''0x9999999999999999999999999999999999999999''"
    by (simp add: AGENT_WALLET_ADDRESS_def example_env_def truthy_str_def)
  have n: "name example_params = Some ''Foo''" and s: "symbol example_params = Some ''FOO''"
    and w: "wallet example_params = Some ''0x1111111111111111111111111111111111111111''"
    by (simp_all add: example_params_def)
  obtain req where
    calls: "deploy_calls (snd (deployTokenViaSDK example_env example_sdk example_params)) = [req]"
    and split: "recipients req =
      [\<lparr> admin = ''0x1111111111111111111111111111111111111111'',
          recipient = ''0x1111111111111111111111111111111111111111'', bps = 9000, token = Both \<rparr>,
       \<lparr> admin = AGENT_WALLET_ADDRESS example_env, recipient = AGENT_WALLET_ADDRESS example_env,
          bps = 1000, token = Both \<rparr>]"
    and ok: "\<forall>tx outcome. example_sdk req = SdkOk tx outcome \<longrightarrow>
      deployTokenViaSDK example_env example_sdk example_params =
        (\<lparr> success = True, txHash = Some tx, error = None \<rparr>,
         [CallDeploy req, CallWaitForTransaction])"
    using deploy_fee_split [OF cl n _ s _ w, of example_sdk] by auto
  have sdk: "example_sdk req = SdkOk ''0xabc'' Rejected"
    by (simp add: example_sdk_def)
  with ok have "fst (deployTokenViaSDK example_env example_sdk example_params) =
      \<lparr> success = True, txHash = Some ''0xabc'', error = None \<rparr>"
    by simp
  with cl n s w calls split sdk agent show ?thesis
    by (intro conjI exI [of _ req]) simp_all
qed

text \<open>
  Claim C6.  \<open>deployTokenViaSDK\<close> always returns a result.  The result is a failure
  exactly when the signing key gives no clients (\<open>getViemClients\<close> is \<open>null\<close>: the
  key is unset, or no account can be made from it), or one of name, symbol and wallet
  is absent or empty, or the SDK's deploy throws or returns an error.  A failure
  carries an error message and no transaction hash; every other result is a success
  with a transaction hash.  The SDK's deploy is called at most once.
\<close>

theorem deploy_failure_cases:
  "(\<not> success (fst (deployTokenViaSDK env sdk params)) \<longleftrightarrow>
      getViemClients env = None \<or>
      \<not> truthy_str (name params) \<or> \<not> truthy_str (symbol params) \<or>
      \<not> truthy_str (wallet params) \<or>
      (\<exists>m. sdk (build_request env params) = SdkThrows m) \<or>
      (\<exists>e. sdk (build_request env params) = SdkError e)) \<and>
   (\<not> success (fst (deployTokenViaSDK env sdk params)) \<longrightarrow>
      error (fst (deployTokenViaSDK env sdk params)) \<noteq> None \<and>
      txHash (fst (deployTokenViaSDK env sdk params)) = None) \<and>
   (success (fst (deployTokenViaSDK env sdk params)) \<longrightarrow>
      txHash (fst (deployTokenViaSDK env sdk params)) \<noteq> None \<and>
      error (fst (deployTokenViaSDK env sdk params)) = None) \<and>
   length (deploy_calls (snd (deployTokenViaSDK env sdk params))) \<le> 1"
proof (cases "getViemClients env")
  case None
  then show ?thesis
    by (simp add: deployTokenViaSDK_def failure_def deploy_calls_simps)
next
  case (Some cl)
  show ?thesis
  proof (cases "truthy_str (name params) \<and> truthy_str (symbol params) \<and>
                truthy_str (wallet params)")
    case False
    with Some show ?thesis
      by (auto simp add: deployTokenViaSDK_def failure_def deploy_calls_simps)
  next
    case True
    with Some show ?thesis
      by (cases "sdk (build_request env params)")
        (simp_all add: deployTokenViaSDK_def failure_def deploy_calls_simps Let_def)
  qed
qed

theorem deploy_failure_cases_witness:
  "getViemClients (example_env\<lparr> CONWAY_WALLET_PRIVATE_KEY := None \<rparr>) = None \<and>
   fst (deployTokenViaSDK (example_env\<lparr> CONWAY_WALLET_PRIVATE_KEY := None \<rparr>) example_sdk
          example_params) =
     \<lparr> success = False, txHash = None,
       error = Some ''Server wallet not configured. Add CONWAY_WALLET_PRIVATE_KEY.'' \<rparr> \<and>
   getViemClients example_env \<noteq> None \<and>
   truthy_str (name example_params) \<and> truthy_str (symbol example_params) \<and>
   truthy_str (wallet example_params) \<and>
   success (fst (deployTokenViaSDK example_env example_sdk example_params)) \<and>
   txHash (fst (deployTokenViaSDK example_env example_sdk example_params)) = Some ''0xabc''"
  using deploy_failure_cases [of "example_env\<lparr> CONWAY_WALLET_PRIVATE_KEY := None \<rparr>"
      example_sdk example_params]
    deploy_failure_cases [of example_env example_sdk example_params]
  by (simp add: deployTokenViaSDK_def getViemClients_def example_env_def example_params_def
        example_sdk_def truthy_str_def failure_def Let_def)

section \<open>Properties of the wallet checks\<close>







section \<open>Properties of the inference relay\<close>

lemma requests_simps:
  "requests [] = []"
  "requests (Sent r # tr) = r # requests tr"
  "requests (Chunk x # tr) = requests tr"
  "requests (Done # tr) = requests tr"
  "requests (Failed m # tr) = requests tr"
  "requests (tr @ tr') = requests tr @ requests tr'"
  by (simp_all add: requests_def)

lemma requests_sse_line: "requests (sse_line dc line) = []"
  by (simp add: sse_line_def Let_def requests_simps)

lemma requests_sse_lines: "requests (concat (map (sse_line dc) ls)) = []"
  by (induction ls) (simp_all add: requests_simps requests_sse_line)

lemma requests_readSseStream: "requests (readSseStream dc buf cs) = []"
  by (induction cs arbitrary: buf) (simp_all add: requests_simps requests_sse_lines Let_def)

lemma requests_stream_back: "requests (stream_back dc resp) = []"
  by (cases "ending resp") (simp_all add: stream_back_def requests_simps requests_readSseStream)

text \<open>
  The requests of a turn, read off the trace: none without clients; otherwise the first
  request, followed by the paid one exactly when the first response has status 402, its
  body has been read, it has a payment option and the credential has been signed.
\<close>

lemma requests_callConwayAI:
  "requests (callConwayAI env net parse402 pay dc ed bodyStr) =
     (case getViemClients env of
        None \<Rightarrow> []
      | Some cl \<Rightarrow>
          first_request bodyStr #
          (case net 0 (first_request bodyStr) of
             NetworkError m \<Rightarrow> []
           | Response step1 \<Rightarrow>
               if status step1 = 402 \<and> ending step1 = StreamEnd then
                 (case parse402 (concat (chunks step1)) of
                    Accepts offer \<Rightarrow>
                      (case pay cl offer of
                         Signed cred \<Rightarrow> [paid_request bodyStr cred]
                       | _ \<Rightarrow> [])
                  | _ \<Rightarrow> [])
               else []))"
  by (simp add: callConwayAI_def requests_simps requests_stream_back after_body_def
        split: option.split net_result.split payment_required.split sign_outcome.split
          stream_end.split)

lemma no_paid_header: "map_of (headers (first_request bodyStr)) ''X-PAYMENT'' = None"
  by (simp add: first_request_def)

lemma paid_header: "map_of (headers (paid_request bodyStr cred)) ''X-PAYMENT'' = Some cred"
  by (simp add: paid_request_def)

lemma same_body: "body (paid_request bodyStr cred) = body (first_request bodyStr)"
  by (simp add: paid_request_def first_request_def)

text \<open>What the trace is once the paid request has got a response that is not a 200.\<close>

lemma rejected_resend:
  assumes "getViemClients env = Some cl"
    and "net 0 (first_request bodyStr) = Response step1"
    and "status step1 = 402" and "ending step1 = StreamEnd"
    and "parse402 (concat (chunks step1)) = Accepts offer"
    and "pay cl offer = Signed cred"
    and "net 1 (paid_request bodyStr cred) = Response step2"
    and "status step2 \<noteq> 200"
  shows "\<exists>msg. callConwayAI env net parse402 pay dc ed bodyStr =
           [Sent (first_request bodyStr), Sent (paid_request bodyStr cred), Failed msg]"
  using assms
  by (cases "ending step2") (simp_all add: callConwayAI_def after_body_def)

text \<open>
  Claim C3.  In one turn \<open>callConwayAI\<close> sends at most two requests.  The first is
  the request without a payment credential.  There is a second request only when the
  first response has status 402, and then it has the body of the first and carries the
  signed credential in \<open>X-PAYMENT\<close>.  When the response to the second request has a
  status other than 200, the turn ends there: the trace is the two requests followed by
  one call of \<open>onError\<close>, with no third request, no chunk and no \<open>onDone\<close>.
\<close>

theorem callConwayAI_single_resend:
  "let tr = callConwayAI env net parse402 pay dc ed bodyStr; rs = requests tr in
     length rs \<le> 2 \<and>
     (rs \<noteq> [] \<longrightarrow>
        hd rs = first_request bodyStr \<and> map_of (headers (hd rs)) ''X-PAYMENT'' = None) \<and>
     (length rs = 2 \<longrightarrow>
        (\<exists>step1. net 0 (first_request bodyStr) = Response step1 \<and> status step1 = 402) \<and>
        (\<exists>cl offer cred.
           getViemClients env = Some cl \<and> pay cl offer = Signed cred \<and>
           rs ! 1 = paid_request bodyStr cred \<and>
           map_of (headers (rs ! 1)) ''X-PAYMENT'' = Some cred \<and>
           body (rs ! 1) = body (rs ! 0))) \<and>
     (\<forall>step2. length rs = 2 \<and> net 1 (rs ! 1) = Response step2 \<and> status step2 \<noteq> 200 \<longrightarrow>
        (\<exists>msg. tr = [Sent (rs ! 0), Sent (rs ! 1), Failed msg]))"
proof -
  let ?tr = "callConwayAI env net parse402 pay dc ed bodyStr"
  let ?rs = "requests ?tr"
  have shape: "?rs = [] \<or> ?rs = [first_request bodyStr] \<or>
      (\<exists>cl step1 offer cred.
         getViemClients env = Some cl \<and> net 0 (first_request bodyStr) = Response step1 \<and>
         status step1 = 402 \<and> ending step1 = StreamEnd \<and>
         parse402 (concat (chunks step1)) = Accepts offer \<and> pay cl offer = Signed cred \<and>
         ?rs = [first_request bodyStr, paid_request bodyStr cred])"
    unfolding requests_callConwayAI
    by (simp split: option.split net_result.split payment_required.split sign_outcome.split)
  have len: "length ?rs \<le> 2"
    using shape by auto
  have first: "hd ?rs = first_request bodyStr \<and> map_of (headers (hd ?rs)) ''X-PAYMENT'' = None"
    if "?rs \<noteq> []"
    using that shape by (auto simp add: no_paid_header)
  have two: "\<exists>cl step1 offer cred.
      getViemClients env = Some cl \<and> net 0 (first_request bodyStr) = Response step1 \<and>
      status step1 = 402 \<and> ending step1 = StreamEnd \<and>
      parse402 (concat (chunks step1)) = Accepts offer \<and> pay cl offer = Signed cred \<and>
      ?rs = [first_request bodyStr, paid_request bodyStr cred]"
    if "length ?rs = 2"
    using that shape by auto
  have second: "(\<exists>step1. net 0 (first_request bodyStr) = Response step1 \<and> status step1 = 402) \<and>
      (\<exists>cl offer cred.
         getViemClients env = Some cl \<and> pay cl offer = Signed cred \<and>
         ?rs ! 1 = paid_request bodyStr cred \<and>
         map_of (headers (?rs ! 1)) ''X-PAYMENT'' = Some cred \<and>
         body (?rs ! 1) = body (?rs ! 0))"
    if "length ?rs = 2"
  proof -
    from two [OF that] obtain cl step1 offer cred where
      h: "getViemClients env = Some cl" "net 0 (first_request bodyStr) = Response step1"
         "status step1 = 402" "pay cl offer = Signed cred"
         "?rs = [first_request bodyStr, paid_request bodyStr cred]"
      by blast
    from h(5) have "?rs ! 1 = paid_request bodyStr cred" "?rs ! 0 = first_request bodyStr"
      by simp_all
    with h(1-4) show ?thesis
      by (metis paid_header same_body)
  qed
  have terminal: "\<exists>msg. ?tr = [Sent (?rs ! 0), Sent (?rs ! 1), Failed msg]"
    if "length ?rs = 2" and "net 1 (?rs ! 1) = Response step2" and "status step2 \<noteq> 200"
    for step2
  proof -
    from two [OF that(1)] obtain cl step1 offer cred where
      h: "getViemClients env = Some cl" "net 0 (first_request bodyStr) = Response step1"
         "status step1 = 402" "ending step1 = StreamEnd"
         "parse402 (concat (chunks step1)) = Accepts offer" "pay cl offer = Signed cred"
         "?rs = [first_request bodyStr, paid_request bodyStr cred]"
      by blast
    from h(7) have nth: "?rs ! 1 = paid_request bodyStr cred" "?rs ! 0 = first_request bodyStr"
      by simp_all
    from that(2) nth have "net 1 (paid_request bodyStr cred) = Response step2"
      by simp
    with h(1-6) have "\<exists>msg. ?tr =
        [Sent (first_request bodyStr), Sent (paid_request bodyStr cred), Failed msg]"
      using that(3) by (rule rejected_resend)
    with nth show ?thesis
      by simp
  qed
  from len first second terminal show ?thesis
    unfolding Let_def by blast
qed

theorem callConwayAI_single_resend_witness:
  "(let tr = callConwayAI example_env example_net (\<lambda>b. Accepts (1::nat)) (\<lambda>cl offer. Signed ''cred'')
               (\<lambda>d. d) (\<lambda>b. None) ''{}'';
        rs = requests tr
    in rs \<noteq> [] \<and> length rs = 2 \<and>
       net_status (example_net 1 (rs ! 1)) = Some 500 \<and>
       map_of (headers (rs ! 0)) ''X-PAYMENT'' = None \<and>
       map_of (headers (rs ! 1)) ''X-PAYMENT'' = Some ''cred'' \<and>
       tr = [Sent (rs ! 0), Sent (rs ! 1), Failed ''x402_payment_rejected: HTTP 500''])"
  using callConwayAI_single_resend [of example_env example_net "\<lambda>b. Accepts (1::nat)"
      "\<lambda>cl offer. Signed ''cred''" "\<lambda>d. d" "\<lambda>b. None" "''{}''"]
  by (simp add: Let_def callConwayAI_def getViemClients_def example_env_def example_net_def
        truthy_str_def str_or_def after_body_def first_request_def paid_request_def
        requests_simps net_status_def)

section \<open>Properties of the fallback knowledge base\<close>

lemma select_answer_None:
  "find (applies (toLowerCase message)) rules = None \<Longrightarrow>
   select_answer message errCode = Menu (creditNote errCode)"
  by (simp add: select_answer_def Let_def)

lemma select_answer_Some:
  "find (applies (toLowerCase message)) rules = Some r \<Longrightarrow>
   select_answer message errCode = answer_of (toLowerCase message) r"
  by (simp add: select_answer_def Let_def)

lemma chain_is_selection:
  "generateFallbackResponse message errCode = select_answer message errCode"
  unfolding generateFallbackResponse_def select_answer_def rules_def Let_def
  by (simp only: find.simps applies.simps answer_of.simps option.case
        if_distrib [of "case_option x f" for x f] cong del: if_weak_cong split del: if_split)

text \<open>
  Claim C8.  \<open>generateFallbackResponse\<close> is a function of the question and the
  error tag, so two calls with the same arguments return the same answer.  The answer is
  the one of the first rule, in the order of the source, that applies to the question
  in lower case; it is then the same for every error tag.  When no rule applies, the
  answer is the generic menu (with the note of the error tag).  An answer is returned
  for every input.
\<close>

theorem generateFallbackResponse_first_match:
  "(message = message' \<and> errCode = errCode' \<longrightarrow>
      generateFallbackResponse message errCode = generateFallbackResponse message' errCode') \<and>
   generateFallbackResponse message errCode = select_answer message errCode \<and>
   (\<forall>r. find (applies (toLowerCase message)) rules = Some r \<longrightarrow>
      generateFallbackResponse message errCode = answer_of (toLowerCase message) r \<and>
      generateFallbackResponse message errCode' = generateFallbackResponse message errCode) \<and>
   (find (applies (toLowerCase message)) rules = None \<longrightarrow>
      generateFallbackResponse message errCode = Menu (creditNote errCode))"
  by (auto simp add: chain_is_selection select_answer_None select_answer_Some)

lemmas fallback_eval = rules_def has_def toLowerCase_def startsWith_def address_match_def
  address_re_def

lemma defi_rule:
  "find (applies (toLowerCase ''What is DeFi?'')) rules =
     Some (Keywords [''defi'', ''decentralized finance''] DeFi)"
  by (simp add: fallback_eval char_eval)

lemma deploy_fee_rule:
  "find (applies (toLowerCase ''deploy fee'')) rules =
     Some (Keywords [''deploy'', ''launch'', ''create token'', ''mint token''] PlatformDeploy)"
  by (simp add: fallback_eval char_eval)

lemma deploy_fee_later_rule:
  "applies (toLowerCase ''deploy fee'') (Keywords [''fee'', ''split'', ''earn'', ''reward''] PlatformFees)"
  by (simp add: fallback_eval char_eval)

lemma no_rule: "find (applies (toLowerCase ''???'')) rules = None"
  by (simp add: fallback_eval pattern_defs match_eval char_eval)

theorem generateFallbackResponse_first_match_witness:
  "find (applies (toLowerCase ''What is DeFi?'')) rules =
     Some (Keywords [''defi'', ''decentralized finance''] DeFi) \<and>
   generateFallbackResponse ''What is DeFi?'' None = Canned DeFi \<and>
   generateFallbackResponse ''What is DeFi?'' (Some ''agent_wallet_missing'') = Canned DeFi \<and>
   applies (toLowerCase ''deploy fee'')
     (Keywords [''fee'', ''split'', ''earn'', ''reward''] PlatformFees) \<and>
   generateFallbackResponse ''deploy fee'' None = Canned PlatformDeploy \<and>
   find (applies (toLowerCase ''???'')) rules = None \<and>
   generateFallbackResponse ''???'' (Some ''x402_no_accepts'') = Menu PaymentError"
proof -
  have credit: "creditNote (Some ''x402_no_accepts'') = PaymentError"
    by (simp add: creditNote_def startsWith_def)
  have defi: "generateFallbackResponse ''What is DeFi?'' None = Canned DeFi"
    "generateFallbackResponse ''What is DeFi?'' (Some ''agent_wallet_missing'') = Canned DeFi"
    using generateFallbackResponse_first_match
      [where message = "''What is DeFi?''" and message' = "''What is DeFi?''"
        and errCode = None and errCode' = "Some ''agent_wallet_missing''"] defi_rule
    by auto
  have fee: "generateFallbackResponse ''deploy fee'' None = Canned PlatformDeploy"
    using generateFallbackResponse_first_match
      [where message = "''deploy fee''" and message' = "''deploy fee''" and errCode = None
        and errCode' = None] deploy_fee_rule
    by auto
  have menu: "generateFallbackResponse ''???'' (Some ''x402_no_accepts'') = Menu PaymentError"
    using generateFallbackResponse_first_match
      [where message = "''???''" and message' = "''???''"
        and errCode = "Some ''x402_no_accepts''" and errCode' = None] no_rule credit
    by auto
  from defi_rule defi deploy_fee_later_rule fee no_rule menu show ?thesis
    by simp
qed

section \<open>Chat history\<close>

lemma filter_other_session:
  "sid' \<noteq> sid \<Longrightarrow>
   filter (\<lambda>m. sessionId m = sid') (filter (\<lambda>m. sessionId m \<noteq> sid) tbl) =
   filter (\<lambda>m. sessionId m = sid') tbl"
  by (induction tbl) auto

lemma filter_same_session:
  "filter (\<lambda>m. sessionId m = sid) (filter (\<lambda>m. sessionId m \<noteq> sid) tbl) = []"
  by (induction tbl) auto

text \<open>
  Claim C9.  After the history of a session has been cleared, reading the history of
  that session gives the empty list, and the history read for any other session is
  what it was before the clearing.
\<close>

theorem clear_then_get_history:
  "getChatHistory (clearChatHistory tbl sid) sid = [] \<and>
   (\<forall>sid'. sid' \<noteq> sid \<longrightarrow>
      getChatHistory (clearChatHistory tbl sid) sid' = getChatHistory tbl sid')"
proof (intro conjI allI impI)
  show "getChatHistory (clearChatHistory tbl sid) sid = []"
    unfolding getChatHistory_def clearChatHistory_def
    by (simp only: filter_same_session sort_key_simps)
next
  fix sid' :: string
  assume "sid' \<noteq> sid"
  then show "getChatHistory (clearChatHistory tbl sid) sid' = getChatHistory tbl sid'"
    unfolding getChatHistory_def clearChatHistory_def
    by (simp add: filter_other_session del: filter_filter)
qed

theorem clear_then_get_history_witness:
  "getChatHistory example_table ''s1'' \<noteq> [] \<and>
   getChatHistory (clearChatHistory example_table ''s1'') ''s1'' = [] \<and>
   ''s2'' \<noteq> ''s1'' \<and>
   getChatHistory (clearChatHistory example_table ''s1'') ''s2'' =
     [\<lparr> row_id = 2, sessionId = ''s2'', role = ''user'', content = ''what is defi'', createdAt = Some 11 \<rparr>]"
  using clear_then_get_history [of example_table "''s1''"]
  by (simp add: getChatHistory_def example_table_def created_key_def)

end
